theory Spec2Isabelle
  imports Main "HOL-Library.Word"
begin

unbundle bit_operations_syntax

section \<open>Python values\<close>

text \<open>
  The module \<^verbatim>\<open>bronzebeard/asm_v3.py\<close> works on Python integers (unbounded, modelled
  as \<^typ>\<open>int\<close>, whose \<open>AND\<close>, \<open>OR\<close>, \<open>push_bit\<close>, \<open>drop_bit\<close>, \<open>div\<close> and \<open>mod\<close>
  agree with Python's \<^verbatim>\<open>&\<close>, \<^verbatim>\<open>|\<close>, \<^verbatim>\<open><<\<close>, \<^verbatim>\<open>>>\<close>, \<^verbatim>\<open>//\<close> and \<^verbatim>\<open>%\<close>), on strings
  (modelled as \<^typ>\<open>string\<close>, every character a code point below 256) and on
  \<^verbatim>\<open>bytes\<close> (lists of 8-bit words).

  Every exception the module can raise is a value of \<open>error\<close>. The three
  \<^verbatim>\<open>ValueError\<close>s of the encoders are kept apart by their message:
  \<open>InvalidRegister\<close> stands for both messages of \<^verbatim>\<open>resolve_register\<close>,
  \<open>ImmediateRangeError\<close> for the "must be between" messages and
  \<open>ImmediateParityError\<close> for the "must be a muliple of 2" messages; \<open>ValueError\<close>
  is any other \<^verbatim>\<open>ValueError\<close> of the interpreter.
\<close>

type_synonym byte = "8 word"

datatype error =
    InvalidRegister
  | ImmediateRangeError
  | ImmediateParityError
  | ValueError
  | StructError
  | KeyError string
  | AttributeError
  | TypeError
  | IndexError
  | ZeroDivisionError
  | EvalError
  | SystemExit

text \<open>
  Sequencing: an exception raised by the first computation ends the whole computation.
\<close>

fun and_then :: "error + 'a \<Rightarrow> ('a \<Rightarrow> error + 'b) \<Rightarrow> error + 'b" where
  "and_then (Inl e) f = Inl e"
| "and_then (Inr x) f = f x"

text \<open>
  \<^verbatim>\<open>str.isspace\<close> on the code points below 256: what \<^verbatim>\<open>str.strip()\<close> and the
  regular expression class \<^verbatim>\<open>\s\<close> treat as white space.
\<close>

definition is_space :: "char \<Rightarrow> bool" where
  "is_space c \<longleftrightarrow> c \<in> set [CHR 0x09, CHR 0x0A, CHR 0x0B, CHR 0x0C, CHR 0x0D,
                            CHR 0x1C, CHR 0x1D, CHR 0x1E, CHR 0x1F, CHR 0x20,
                            CHR 0x85, CHR 0xA0]"

definition strip :: "string \<Rightarrow> string" where
  "strip s = rev (dropWhile is_space (rev (dropWhile is_space s)))"

definition is_digit :: "char \<Rightarrow> bool" where
  "is_digit c \<longleftrightarrow> c \<in> set ''0123456789''"

definition digit_val :: "char \<Rightarrow> int" where
  "digit_val c = of_char c - 48"

text \<open>
  The digits of a decimal literal as \<^verbatim>\<open>int(str)\<close> reads them: at least one digit, single
  underscores allowed between digits only. The flag says whether the previous character
  was a digit.
\<close>

fun py_digits :: "int \<Rightarrow> bool \<Rightarrow> string \<Rightarrow> int option" where
  "py_digits acc prev [] = (if prev then Some acc else None)"
| "py_digits acc prev (c # cs) =
     (if is_digit c then py_digits (acc * 10 + digit_val c) True cs
      else if c = CHR ''_'' \<and> prev then py_digits acc False cs
      else None)"

text \<open>
  The white space \<^verbatim>\<open>int(str)\<close> skips before and after the literal, on the code points
  below 256. It is not \<^verbatim>\<open>str.isspace\<close>: \<^verbatim>\<open>int\<close> keeps the ASCII characters as they are and
  skips those of C's \<^verbatim>\<open>isspace\<close> (tab, line feed, vertical tab, form feed, carriage
  return, space), so the separators U+001C to U+001F are not skipped and end in
  \<^verbatim>\<open>ValueError\<close>; the white space outside ASCII (U+0085 and U+00A0) is first replaced
  by a space, and is skipped.
\<close>

definition is_int_space :: "char \<Rightarrow> bool" where
  "is_int_space c \<longleftrightarrow> c \<in> set [CHR 0x09, CHR 0x0A, CHR 0x0B, CHR 0x0C, CHR 0x0D, CHR 0x20,
                                CHR 0x85, CHR 0xA0]"

definition int_strip :: "string \<Rightarrow> string" where
  "int_strip s = rev (dropWhile is_int_space (rev (dropWhile is_int_space s)))"

text \<open>
  \<^verbatim>\<open>int(s)\<close> for a string of code points below 256 (there the only decimal digits are
  \<^verbatim>\<open>0\<close> to \<^verbatim>\<open>9\<close>): white space skipped at both ends, one optional sign, then the digits
  up to the end. \<open>None\<close> is the \<^verbatim>\<open>ValueError\<close>.
\<close>

definition py_int :: "string \<Rightarrow> int option" where
  "py_int s =
     (case int_strip s of
        [] \<Rightarrow> None
      | c # cs \<Rightarrow>
          if c = CHR ''-'' then map_option uminus (py_digits 0 False cs)
          else if c = CHR ''+'' then py_digits 0 False cs
          else py_digits 0 False (c # cs))"

text \<open>
  The decimal literals that \<^verbatim>\<open>int(str)\<close> accepts, written out as a grammar for
  comparison with \<open>py_int\<close>. The body of a literal is a nonempty string of digits and
  underscores that begins and ends with a digit and has no two underscores in a row;
  its value is the decimal value of its digits. A literal is a body with at most one
  sign before it and white space (tab, line feed, vertical tab, form feed, carriage
  return, space, U+0085, U+00A0) before and after.
\<close>

definition decimal :: "string \<Rightarrow> int" where
  "decimal ds = foldl (\<lambda>a c. a * 10 + digit_val c) 0 ds"

definition numeral_body :: "string \<Rightarrow> bool" where
  "numeral_body b \<longleftrightarrow>
     b \<noteq> [] \<and> (\<forall>c\<in>set b. is_digit c \<or> c = CHR ''_'')
     \<and> is_digit (hd b) \<and> is_digit (last b)
     \<and> \<not> (\<exists>xs ys. b = xs @ ''__'' @ ys)"

definition int_literal :: "string \<Rightarrow> int \<Rightarrow> bool" where
  "int_literal s n \<longleftrightarrow>
     (\<exists>ws1 sg b ws2.
        s = ws1 @ sg @ b @ ws2
        \<and> (\<forall>c\<in>set (ws1 @ ws2). of_char c \<in> {9, 10, 11, 12, 13, 32, 133, 160 :: nat})
        \<and> numeral_body b
        \<and> (sg = [] \<and> n = decimal (filter is_digit b)
            \<or> sg = ''+'' \<and> n = decimal (filter is_digit b)
            \<or> sg = ''-'' \<and> n = - decimal (filter is_digit b)))"

section \<open>Registers\<close>

definition REGISTERS :: "string \<rightharpoonup> int" where
  "REGISTERS = map_of [
     (''x0'', 0), (''zero'', 0),
     (''x1'', 1), (''ra'', 1),
     (''x2'', 2), (''sp'', 2),
     (''x3'', 3), (''gp'', 3),
     (''x4'', 4), (''tp'', 4),
     (''x5'', 5), (''t0'', 5),
     (''x6'', 6), (''t1'', 6),
     (''x7'', 7), (''t2'', 7),
     (''x8'', 8), (''s0'', 8), (''fp'', 8),
     (''x9'', 9), (''s1'', 9),
     (''x10'', 10), (''a0'', 10),
     (''x11'', 11), (''a1'', 11),
     (''x12'', 12), (''a2'', 12),
     (''x13'', 13), (''a3'', 13),
     (''x14'', 14), (''a4'', 14),
     (''x15'', 15), (''a5'', 15),
     (''x16'', 16), (''a6'', 16),
     (''x17'', 17), (''a7'', 17),
     (''x18'', 18), (''s2'', 18),
     (''x19'', 19), (''s3'', 19),
     (''x20'', 20), (''s4'', 20),
     (''x21'', 21), (''s5'', 21),
     (''x22'', 22), (''s6'', 22),
     (''x23'', 23), (''s7'', 23),
     (''x24'', 24), (''s8'', 24),
     (''x25'', 25), (''s9'', 25),
     (''x26'', 26), (''s10'', 26),
     (''x27'', 27), (''s11'', 27),
     (''x28'', 28), (''t3'', 28),
     (''x29'', 29), (''t4'', 29),
     (''x30'', 30), (''t5'', 30),
     (''x31'', 31), (''t6'', 31)]"

text \<open>
  A register operand is a string token or already an integer (the source's comment on
  the item fields: \<^verbatim>\<open>rd, rs1, rs2: int, str\<close>).
\<close>

datatype reg = RegName string | RegNum int

text \<open>
  \<^verbatim>\<open>resolve_register\<close>: a key of \<open>REGISTERS\<close> is replaced by its number; then
  \<^verbatim>\<open>int(reg)\<close>, which is the identity on an integer and parses a string; then the range
  check.
\<close>

definition resolve_register :: "reg \<Rightarrow> error + int" where
  "resolve_register reg =
     (let reg1 = (case reg of
                    RegName s \<Rightarrow> (case REGISTERS s of Some n \<Rightarrow> RegNum n | None \<Rightarrow> reg)
                  | RegNum n \<Rightarrow> reg)
      in case (case reg1 of RegNum n \<Rightarrow> Some n | RegName s \<Rightarrow> py_int s) of
           None \<Rightarrow> Inl InvalidRegister
         | Some n \<Rightarrow> if n < 0 \<or> n > 31 then Inl InvalidRegister else Inr n)"

section \<open>Instruction encoders\<close>

text \<open>\<^verbatim>\<open>c_uint32(imm).value\<close>: the value modulo \<open>2^32\<close>.\<close>

definition c_uint32 :: "int \<Rightarrow> int" where
  "c_uint32 v = v mod 2 ^ 32"

text \<open>
  \<^verbatim>\<open>struct.pack('<I', code)\<close>: four bytes, least significant first; \<^verbatim>\<open>struct.error\<close>
  when the code is not an unsigned 32-bit value.
\<close>

definition pack_I :: "int \<Rightarrow> error + byte list" where
  "pack_I code =
     (if 0 \<le> code \<and> code < 2 ^ 32
      then Inr [word_of_int code, word_of_int (drop_bit 8 code),
                word_of_int (drop_bit 16 code), word_of_int (drop_bit 24 code)]
      else Inl StructError)"

definition r_type :: "reg \<Rightarrow> reg \<Rightarrow> reg \<Rightarrow> int \<Rightarrow> int \<Rightarrow> int \<Rightarrow> error + byte list" where
  "r_type rd rs1 rs2 opcode funct3 funct7 =
     (and_then (resolve_register rd) (\<lambda>rd'.
      and_then (resolve_register rs1) (\<lambda>rs1'.
      and_then (resolve_register rs2) (\<lambda>rs2'.
        pack_I (0 OR opcode OR push_bit 7 rd' OR push_bit 12 funct3 OR push_bit 15 rs1'
                  OR push_bit 20 rs2' OR push_bit 25 funct7)))))"

definition i_type :: "reg \<Rightarrow> reg \<Rightarrow> int \<Rightarrow> int \<Rightarrow> int \<Rightarrow> error + byte list" where
  "i_type rd rs1 imm opcode funct3 =
     (and_then (resolve_register rd) (\<lambda>rd'.
      and_then (resolve_register rs1) (\<lambda>rs1'.
        if imm < - 0x800 \<or> imm > 0x7ff then Inl ImmediateRangeError
        else let imm' = c_uint32 imm AND 0xfff
             in pack_I (0 OR opcode OR push_bit 7 rd' OR push_bit 12 funct3
                          OR push_bit 15 rs1' OR push_bit 20 imm'))))"

definition s_type :: "reg \<Rightarrow> reg \<Rightarrow> int \<Rightarrow> int \<Rightarrow> int \<Rightarrow> error + byte list" where
  "s_type rs1 rs2 imm opcode funct3 =
     (and_then (resolve_register rs1) (\<lambda>rs1'.
      and_then (resolve_register rs2) (\<lambda>rs2'.
        if imm < - 0x800 \<or> imm > 0x7ff then Inl ImmediateRangeError
        else let imm' = c_uint32 imm AND 0xfff;
                 imm_11_5 = drop_bit 5 imm' AND 0x7f;
                 imm_4_0 = imm' AND 0x1f
             in pack_I (0 OR opcode OR push_bit 7 imm_4_0 OR push_bit 12 funct3
                          OR push_bit 15 rs1' OR push_bit 20 rs2' OR push_bit 25 imm_11_5))))"

definition b_type :: "reg \<Rightarrow> reg \<Rightarrow> int \<Rightarrow> int \<Rightarrow> int \<Rightarrow> error + byte list" where
  "b_type rs1 rs2 imm opcode funct3 =
     (and_then (resolve_register rs1) (\<lambda>rs1'.
      and_then (resolve_register rs2) (\<lambda>rs2'.
        if imm < - 0x1000 \<or> imm > 0x0fff then Inl ImmediateRangeError
        else if imm mod 2 = 1 then Inl ImmediateParityError
        else let imm1 = imm div 2;
                 imm' = c_uint32 imm1 AND 0xfff;
                 imm_12 = drop_bit 11 imm' AND 1;
                 imm_11 = drop_bit 10 imm' AND 1;
                 imm_10_5 = drop_bit 4 imm' AND 0x3f;
                 imm_4_1 = imm' AND 0xf
             in pack_I (0 OR opcode OR push_bit 7 imm_11 OR push_bit 8 imm_4_1
                          OR push_bit 12 funct3 OR push_bit 15 rs1' OR push_bit 20 rs2'
                          OR push_bit 25 imm_10_5 OR push_bit 31 imm_12))))"

definition u_type :: "reg \<Rightarrow> int \<Rightarrow> int \<Rightarrow> error + byte list" where
  "u_type rd imm opcode =
     (and_then (resolve_register rd) (\<lambda>rd'.
        if imm < - 0x80000 \<or> imm > 0x7ffff then Inl ImmediateRangeError
        else let imm' = c_uint32 imm AND 0xfffff
             in pack_I (0 OR opcode OR push_bit 7 rd' OR push_bit 12 imm')))"

definition j_type :: "reg \<Rightarrow> int \<Rightarrow> int \<Rightarrow> error + byte list" where
  "j_type rd imm opcode =
     (and_then (resolve_register rd) (\<lambda>rd'.
        if imm < - 0x100000 \<or> imm > 0x0fffff then Inl ImmediateRangeError
        else if imm mod 2 = 1 then Inl ImmediateParityError
        else let imm1 = imm div 2;
                 imm' = c_uint32 imm1 AND 0xfffff;
                 imm_20 = drop_bit 19 imm' AND 1;
                 imm_19_12 = drop_bit 11 imm' AND 0xff;
                 imm_11 = drop_bit 10 imm' AND 1;
                 imm_10_1 = imm' AND 0x3ff
             in pack_I (0 OR opcode OR push_bit 7 rd' OR push_bit 12 imm_19_12
                          OR push_bit 20 imm_11 OR push_bit 21 imm_10_1
                          OR push_bit 31 imm_20)))"

text \<open>
  Reading the four bytes back, as \<^verbatim>\<open>int.from_bytes(bs, 'little')\<close> does: the
  little-endian word the properties of the encoders speak about.
\<close>

definition from_bytes_little :: "byte list \<Rightarrow> int" where
  "from_bytes_little bs = foldr (\<lambda>b acc. uint b + 256 * acc) bs 0"

text \<open>
  The integers that \<^verbatim>\<open>i_type\<close> and \<^verbatim>\<open>b_type\<close> hand to \<^verbatim>\<open>struct.pack\<close>, from the resolved
  registers, with every mask written as \<open>take_bit\<close>; \<open>h\<close> is the halved immediate
  \<^verbatim>\<open>imm // 2\<close> of \<^verbatim>\<open>b_type\<close>. The encoders are proved to pack these words below.
\<close>

definition i_type_word :: "int \<Rightarrow> int \<Rightarrow> int \<Rightarrow> int \<Rightarrow> int \<Rightarrow> int" where
  "i_type_word opcode funct3 rd rs1 imm =
     0 OR opcode OR push_bit 7 rd OR push_bit 12 funct3 OR push_bit 15 rs1
       OR push_bit 20 (take_bit 12 imm)"

definition b_type_word :: "int \<Rightarrow> int \<Rightarrow> int \<Rightarrow> int \<Rightarrow> int \<Rightarrow> int" where
  "b_type_word opcode funct3 rs1 rs2 h =
     0 OR opcode OR push_bit 7 (take_bit 1 (drop_bit 10 (take_bit 12 h)))
       OR push_bit 8 (take_bit 4 (take_bit 12 h)) OR push_bit 12 funct3 OR push_bit 15 rs1
       OR push_bit 20 rs2 OR push_bit 25 (take_bit 6 (drop_bit 4 (take_bit 12 h)))
       OR push_bit 31 (take_bit 1 (drop_bit 11 (take_bit 12 h)))"

text \<open>The mnemonics used below, as the source's \<^verbatim>\<open>partial\<close> applications.\<close>

definition LUI :: "reg \<Rightarrow> int \<Rightarrow> error + byte list" where
  "LUI rd imm = u_type rd imm 0x37"

definition JAL :: "reg \<Rightarrow> int \<Rightarrow> error + byte list" where
  "JAL rd imm = j_type rd imm 0x6f"

definition BEQ :: "reg \<Rightarrow> reg \<Rightarrow> int \<Rightarrow> error + byte list" where
  "BEQ rs1 rs2 imm = b_type rs1 rs2 imm 0x63 0"

definition ADDI :: "reg \<Rightarrow> reg \<Rightarrow> int \<Rightarrow> error + byte list" where
  "ADDI rd rs1 imm = i_type rd rs1 imm 0x13 0"

definition ADD :: "reg \<Rightarrow> reg \<Rightarrow> reg \<Rightarrow> error + byte list" where
  "ADD rd rs1 rs2 = r_type rd rs1 rs2 0x33 0 0"

definition R_TYPE_INSTRUCTIONS :: "string list" where
  "R_TYPE_INSTRUCTIONS = [''slli'', ''srli'', ''srai'', ''add'', ''sub'', ''sll'', ''slt'',
                          ''sltu'', ''xor'', ''srl'', ''sra'', ''or'', ''and'']"

section \<open>Program items\<close>

text \<open>
  The items are \<^verbatim>\<open>namedtuple\<close>s (the module uses \<^verbatim>\<open>namedtuple\<close> without importing it;
  it is taken to be \<^verbatim>\<open>collections.namedtuple\<close>). An immediate is an integer or one of
  \<^verbatim>\<open>Position(label, value)\<close>, \<^verbatim>\<open>Offset(label)\<close>, \<^verbatim>\<open>Hi(value)\<close>, \<^verbatim>\<open>Lo(value)\<close>.
\<close>

datatype imm =
    Imm int
  | Position string int
  | Offset string
  | Hi imm
  | Lo imm

datatype item =
    RTypeInstruction string reg reg reg
  | ITypeInstruction string reg reg imm
  | STypeInstruction string reg reg imm
  | BTypeInstruction string reg reg imm
  | UTypeInstruction string reg imm
  | JTypeInstruction string reg imm
  | Label string
  | Align int
  | Blob "byte list"
  | Pack string imm

text \<open>\<^verbatim>\<open>len(item)\<close> of a named tuple: the number of its fields.\<close>

fun len_item :: "item \<Rightarrow> int" where
  "len_item (RTypeInstruction name rd rs1 rs2) = 4"
| "len_item (ITypeInstruction name rd rs1 i) = 4"
| "len_item (STypeInstruction name rs1 rs2 i) = 4"
| "len_item (BTypeInstruction name rs1 rs2 i) = 4"
| "len_item (UTypeInstruction name rd i) = 3"
| "len_item (JTypeInstruction name rd i) = 3"
| "len_item (Label name) = 1"
| "len_item (Align alignment) = 1"
| "len_item (Blob data) = 1"
| "len_item (Pack fmt i) = 2"

text \<open>
  \<^verbatim>\<open>item.imm\<close> for the item types of the list \<^verbatim>\<open>immediates\<close>; \<open>None\<close> for the types
  that are not in the list.
\<close>

fun imm_of :: "item \<Rightarrow> imm option" where
  "imm_of (ITypeInstruction name rd rs1 i) = Some i"
| "imm_of (STypeInstruction name rs1 rs2 i) = Some i"
| "imm_of (BTypeInstruction name rs1 rs2 i) = Some i"
| "imm_of (UTypeInstruction name rd i) = Some i"
| "imm_of (JTypeInstruction name rd i) = Some i"
| "imm_of (Pack fmt i) = Some i"
| "imm_of _ = None"

text \<open>
  Four attribute accesses of the passes fail on these named tuples:
  \<^verbatim>\<open>imm.base\<close> (\<^verbatim>\<open>Position\<close> has the fields \<^verbatim>\<open>label\<close> and \<^verbatim>\<open>value\<close>),
  \<^verbatim>\<open>item.imm.imm\<close> (\<^verbatim>\<open>Hi\<close> and \<^verbatim>\<open>Lo\<close> have the field \<^verbatim>\<open>value\<close>), and the assignments
  \<^verbatim>\<open>item.imm = ...\<close> and \<^verbatim>\<open>item.imm.imm = ...\<close> (the fields of a named tuple cannot be
  set).
\<close>

definition get_base :: "imm \<Rightarrow> error + int" where
  "get_base i = Inl AttributeError"

definition get_imm_imm :: "imm \<Rightarrow> error + imm" where
  "get_imm_imm i = Inl AttributeError"

definition set_imm :: "item \<Rightarrow> int \<Rightarrow> error + item" where
  "set_imm it v = Inl AttributeError"

definition set_imm_imm :: "item \<Rightarrow> int \<Rightarrow> error + item" where
  "set_imm_imm it v = Inl AttributeError"

text \<open>\<^verbatim>\<open>labels[name]\<close>.\<close>

definition get_label :: "(string \<rightharpoonup> int) \<Rightarrow> string \<Rightarrow> error + int" where
  "get_label labels name = (case labels name of None \<Rightarrow> Inl (KeyError name) | Some p \<Rightarrow> Inr p)"

section \<open>Relocation\<close>

text \<open>
  \<^verbatim>\<open>sign_extend\<close>: \<^verbatim>\<open>1 << (bits - 1)\<close> raises \<^verbatim>\<open>ValueError\<close> for a negative shift count.
\<close>

definition sign_extend :: "int \<Rightarrow> int \<Rightarrow> error + int" where
  "sign_extend v bits =
     (if bits - 1 < 0 then Inl ValueError
      else let sign_bit = push_bit (nat (bits - 1)) 1
           in Inr ((v AND (sign_bit - 1)) - (v AND sign_bit)))"

definition relocate_hi :: "int \<Rightarrow> error + int" where
  "relocate_hi i =
     (let i' = (if i AND 0x800 \<noteq> 0 then i + 2 ^ 12 else i)
      in sign_extend (drop_bit 12 i' AND 0x000fffff) 20)"

definition relocate_lo :: "int \<Rightarrow> error + int" where
  "relocate_lo i = sign_extend (i AND 0x00000fff) 12"

section \<open>The passes\<close>

text \<open>
  \<^verbatim>\<open>resolve_aligns\<close>. The loop carries \<^verbatim>\<open>position\<close> and \<^verbatim>\<open>output\<close>. \<^verbatim>\<open>struct.calcsize\<close>
  belongs to the standard library and is a parameter (\<open>Inl\<close> is its \<^verbatim>\<open>struct.error\<close>).
  \<^verbatim>\<open>position % 0\<close> raises \<^verbatim>\<open>ZeroDivisionError\<close>, and \<^verbatim>\<open>b'\x00' * padding\<close> is empty
  for a negative \<^verbatim>\<open>padding\<close>. Every item that is not an \<^verbatim>\<open>Align\<close>, a \<^verbatim>\<open>Blob\<close>
  or a \<^verbatim>\<open>Pack\<close> takes the last branch.
\<close>

fun resolve_aligns_loop ::
  "(string \<Rightarrow> error + int) \<Rightarrow> int \<Rightarrow> item list \<Rightarrow> item list \<Rightarrow> error + item list" where
  "resolve_aligns_loop calcsize position output [] = Inr output"
| "resolve_aligns_loop calcsize position output (Align alignment # program) =
     (if alignment = 0 then Inl ZeroDivisionError
      else let padding = alignment - (position mod alignment)
           in if padding = alignment
              then resolve_aligns_loop calcsize position output program
              else resolve_aligns_loop calcsize (position + padding)
                     (output @ [Blob (replicate (nat padding) 0)]) program)"
| "resolve_aligns_loop calcsize position output (Blob data # program) =
     resolve_aligns_loop calcsize (position + int (length data)) (output @ [Blob data]) program"
| "resolve_aligns_loop calcsize position output (Pack fmt i # program) =
     and_then (calcsize fmt) (\<lambda>n.
       resolve_aligns_loop calcsize (position + n) (output @ [Pack fmt i]) program)"
| "resolve_aligns_loop calcsize position output (it # program) =
     resolve_aligns_loop calcsize (position + 4) (output @ [it]) program"

definition resolve_aligns :: "(string \<Rightarrow> error + int) \<Rightarrow> item list \<Rightarrow> error + item list" where
  "resolve_aligns calcsize program = resolve_aligns_loop calcsize 0 [] program"

text \<open>
  \<^verbatim>\<open>resolve_labels\<close>. The loop carries \<^verbatim>\<open>position\<close>, \<^verbatim>\<open>output\<close> and \<^verbatim>\<open>labels\<close>; a label
  is stored with \<^verbatim>\<open>labels[item.name] = position\<close>, every other item advances the position
  by \<^verbatim>\<open>len(item)\<close>.
\<close>

fun resolve_labels_loop ::
  "int \<Rightarrow> item list \<Rightarrow> (string \<rightharpoonup> int) \<Rightarrow> item list \<Rightarrow> item list \<times> (string \<rightharpoonup> int)" where
  "resolve_labels_loop position output labels [] = (output, labels)"
| "resolve_labels_loop position output labels (Label name # program) =
     resolve_labels_loop position output (labels(name \<mapsto> position)) program"
| "resolve_labels_loop position output labels (it # program) =
     resolve_labels_loop (position + len_item it) (output @ [it]) labels program"

definition resolve_labels :: "item list \<Rightarrow> item list \<times> (string \<rightharpoonup> int)" where
  "resolve_labels program = resolve_labels_loop 0 [] Map.empty program"

text \<open>
  For the properties of \<^verbatim>\<open>resolve_labels\<close>: the test \<^verbatim>\<open>type(item) == Label\<close>, and the
  instructions of the R-, I-, S- and B-type.
\<close>

fun is_Label :: "item \<Rightarrow> bool" where
  "is_Label (Label name) = True"
| "is_Label _ = False"

fun risb_instruction :: "item \<Rightarrow> bool" where
  "risb_instruction (RTypeInstruction name rd rs1 rs2) = True"
| "risb_instruction (ITypeInstruction name rd rs1 i) = True"
| "risb_instruction (STypeInstruction name rs1 rs2 i) = True"
| "risb_instruction (BTypeInstruction name rs1 rs2 i) = True"
| "risb_instruction _ = False"

text \<open>
  \<^verbatim>\<open>resolve_immediates\<close>. For one item: the new item, or the exception.
\<close>

definition resolve_inner :: "(string \<rightharpoonup> int) \<Rightarrow> int \<Rightarrow> item \<Rightarrow> imm \<Rightarrow> error + item" where
  "resolve_inner labels position it i =
     (case i of
        Position label v \<Rightarrow>
          and_then (get_label labels label) (\<lambda>dest.
          and_then (get_base i) (\<lambda>base.
            set_imm_imm it (dest + base)))
      | Offset label \<Rightarrow>
          and_then (get_label labels label) (\<lambda>dest.
            set_imm_imm it (dest - position))
      | _ \<Rightarrow> Inr it)"

definition resolve_immediate :: "(string \<rightharpoonup> int) \<Rightarrow> int \<Rightarrow> item \<Rightarrow> error + item" where
  "resolve_immediate labels position it =
     (case imm_of it of
        None \<Rightarrow> Inr it
      | Some (Position label v) \<Rightarrow>
          and_then (get_label labels label) (\<lambda>dest.
          and_then (get_base (Position label v)) (\<lambda>base.
            set_imm it (dest + base)))
      | Some (Offset label) \<Rightarrow>
          and_then (get_label labels label) (\<lambda>dest.
            set_imm it (dest - position))
      | Some (Hi v) \<Rightarrow> and_then (get_imm_imm (Hi v)) (resolve_inner labels position it)
      | Some (Lo v) \<Rightarrow> and_then (get_imm_imm (Lo v)) (resolve_inner labels position it)
      | Some (Imm n) \<Rightarrow> Inr it)"

fun resolve_immediates_loop ::
  "(string \<rightharpoonup> int) \<Rightarrow> int \<Rightarrow> item list \<Rightarrow> item list \<Rightarrow> error + item list" where
  "resolve_immediates_loop labels position output [] = Inr output"
| "resolve_immediates_loop labels position output (it # program) =
     and_then (resolve_immediate labels position it) (\<lambda>it'.
       resolve_immediates_loop labels (position + len_item it') (output @ [it']) program)"

definition resolve_immediates :: "item list \<Rightarrow> (string \<rightharpoonup> int) \<Rightarrow> error + item list" where
  "resolve_immediates program labels = resolve_immediates_loop labels 0 [] program"

text \<open>
  \<^verbatim>\<open>resolve_relocations\<close>: the argument \<^verbatim>\<open>item.imm.imm\<close> of \<^verbatim>\<open>relocate_hi\<close> and
  \<^verbatim>\<open>relocate_lo\<close> is evaluated first.
\<close>

definition resolve_relocation :: "item \<Rightarrow> error + item" where
  "resolve_relocation it =
     (case imm_of it of
        Some (Hi v) \<Rightarrow>
          and_then (get_imm_imm (Hi v)) (\<lambda>i.
          and_then (case i of Imm n \<Rightarrow> relocate_hi n | _ \<Rightarrow> Inl TypeError) (\<lambda>r.
            set_imm it r))
      | Some (Lo v) \<Rightarrow>
          and_then (get_imm_imm (Lo v)) (\<lambda>i.
          and_then (case i of Imm n \<Rightarrow> relocate_lo n | _ \<Rightarrow> Inl TypeError) (\<lambda>r.
            set_imm it r))
      | _ \<Rightarrow> Inr it)"

fun resolve_relocations_loop :: "item list \<Rightarrow> item list \<Rightarrow> error + item list" where
  "resolve_relocations_loop output [] = Inr output"
| "resolve_relocations_loop output (it # program) =
     and_then (resolve_relocation it) (\<lambda>it'.
       resolve_relocations_loop (output @ [it']) program)"

definition resolve_relocations :: "item list \<Rightarrow> error + item list" where
  "resolve_relocations program = resolve_relocations_loop [] program"

text \<open>
  \<^verbatim>\<open>assemble\<close>: \<^verbatim>\<open>bytes(item)\<close> of a named tuple builds the bytes from the tuple's fields,
  which must all be integers below 256. Only \<^verbatim>\<open>Align\<close> has no string or bytes field.
\<close>

fun bytes_item :: "item \<Rightarrow> error + byte list" where
  "bytes_item (Align alignment) =
     (if 0 \<le> alignment \<and> alignment < 256 then Inr [word_of_int alignment] else Inl ValueError)"
| "bytes_item it = Inl TypeError"

fun assemble_loop :: "byte list \<Rightarrow> item list \<Rightarrow> error + byte list" where
  "assemble_loop output [] = Inr output"
| "assemble_loop output (it # program) =
     and_then (bytes_item it) (\<lambda>bs. assemble_loop (output @ bs) program)"

definition assemble :: "item list \<Rightarrow> error + byte list" where
  "assemble program = assemble_loop [] program"

section \<open>Lexer and parser\<close>

text \<open>
  \<^verbatim>\<open>re.sub(r'#.*?$', r'', assembly, flags=re.MULTILINE)\<close>: from a \<^verbatim>\<open>#\<close> up to, and not
  including, the next newline character. The flag says whether the scan is inside a
  comment.
\<close>

fun strip_comments :: "bool \<Rightarrow> string \<Rightarrow> string" where
  "strip_comments in_comment [] = []"
| "strip_comments in_comment (c # cs) =
     (if in_comment
      then (if c = CHR 0x0A then c # strip_comments False cs else strip_comments True cs)
      else if c = CHR ''#'' then strip_comments True cs
      else c # strip_comments False cs)"

text \<open>
  \<^verbatim>\<open>str.splitlines()\<close> on code points below 256: the line boundaries are
  \<^verbatim>\<open>\n\<close>, \<^verbatim>\<open>\r\<close>, \<^verbatim>\<open>\r\n\<close>, \<^verbatim>\<open>\v\<close>, \<^verbatim>\<open>\f\<close>, \<^verbatim>\<open>\x1c\<close>, \<^verbatim>\<open>\x1d\<close>, \<^verbatim>\<open>\x1e\<close> and \<^verbatim>\<open>\x85\<close>; a
  last line that is empty is not returned.
\<close>

definition is_linebreak :: "char \<Rightarrow> bool" where
  "is_linebreak c \<longleftrightarrow> c \<in> set [CHR 0x0A, CHR 0x0B, CHR 0x0C, CHR 0x0D,
                                CHR 0x1C, CHR 0x1D, CHR 0x1E, CHR 0x85]"

fun splitlines_from :: "string \<Rightarrow> string \<Rightarrow> string list" where
  "splitlines_from cur [] = (if cur = [] then [] else [cur])"
| "splitlines_from cur [c] = (if is_linebreak c then [cur] else [cur @ [c]])"
| "splitlines_from cur (c # d # cs) =
     (if c = CHR 0x0D \<and> d = CHR 0x0A then cur # splitlines_from [] cs
      else if is_linebreak c then cur # splitlines_from [] (d # cs)
      else splitlines_from (cur @ [c]) (d # cs))"

definition splitlines :: "string \<Rightarrow> string list" where
  "splitlines s = splitlines_from [] s"

text \<open>
  \<^verbatim>\<open>re.split(r'[\s,()]+', line)\<close>: the pieces between the maximal runs of separators,
  the empty pieces at both ends included. The flag says whether the previous character
  was a separator.
\<close>

definition is_sep :: "char \<Rightarrow> bool" where
  "is_sep c \<longleftrightarrow> is_space c \<or> c = CHR '','' \<or> c = CHR ''('' \<or> c = CHR '')''"

fun re_split_from :: "bool \<Rightarrow> string \<Rightarrow> string \<Rightarrow> string list" where
  "re_split_from in_sep cur [] = [cur]"
| "re_split_from in_sep cur (c # cs) =
     (if is_sep c
      then (if in_sep then re_split_from True cur cs else cur # re_split_from True [] cs)
      else re_split_from False (cur @ [c]) cs)"

definition re_split :: "string \<Rightarrow> string list" where
  "re_split line = re_split_from False [] line"

definition lex_assembly :: "string \<Rightarrow> string list list" where
  "lex_assembly assembly =
     (let assembly1 = strip_comments False assembly;
          lines1 = splitlines assembly1;
          lines2 = map strip lines1;
          lines3 = filter (\<lambda>line. length line > 0) lines2;
          items = map re_split lines3
      in map (filter (\<lambda>tok. tok \<noteq> [])) items)"

text \<open>
  \<^verbatim>\<open>str.lower()\<close> on code points below 256, \<^verbatim>\<open>str.encode()\<close> (UTF-8) on the same,
  \<^verbatim>\<open>s.endswith(':')\<close>, \<^verbatim>\<open>s.rstrip(':')\<close> and \<^verbatim>\<open>' '.join\<close>.
\<close>

definition lower_char :: "char \<Rightarrow> char" where
  "lower_char c =
     (let n = (of_char c :: nat)
      in if (0x41 \<le> n \<and> n \<le> 0x5A) \<or> (0xC0 \<le> n \<and> n \<le> 0xDE \<and> n \<noteq> 0xD7)
         then char_of (n + 32) else c)"

definition lower :: "string \<Rightarrow> string" where
  "lower s = map lower_char s"

definition encode_char :: "char \<Rightarrow> byte list" where
  "encode_char c =
     (let n = (of_char c :: nat)
      in if n < 0x80 then [of_nat n] else [of_nat (0xC0 + n div 64), of_nat (0x80 + n mod 64)])"

definition encode :: "string \<Rightarrow> byte list" where
  "encode s = concat (map encode_char s)"

definition endswith_colon :: "string \<Rightarrow> bool" where
  "endswith_colon s \<longleftrightarrow> s \<noteq> [] \<and> last s = CHR '':''"

definition rstrip_colon :: "string \<Rightarrow> string" where
  "rstrip_colon s = rev (dropWhile (\<lambda>c. c = CHR '':'') (rev s))"

fun join_space :: "string list \<Rightarrow> string" where
  "join_space [] = []"
| "join_space [x] = x"
| "join_space (x # y # ys) = x @ '' '' @ join_space (y # ys)"

text \<open>
  \<^verbatim>\<open>parse_assembly\<close>. The loop carries \<^verbatim>\<open>context\<close> and \<^verbatim>\<open>program\<close>. Python's \<^verbatim>\<open>eval\<close> is a
  parameter (\<open>Inl\<close> is the exception it raises). \<^verbatim>\<open>item[0]\<close> and \<^verbatim>\<open>item[1]\<close> raise
  \<^verbatim>\<open>IndexError\<close> on a list that is too short. The call \<^verbatim>\<open>parse_immediate(item[2:])\<close> of
  the \<^verbatim>\<open>pack\<close> branch lacks the second argument of \<^verbatim>\<open>parse_immediate(imm, context)\<close>
  and raises \<^verbatim>\<open>TypeError\<close>. The branch of the R-type mnemonics is \<^verbatim>\<open>pass\<close>.
\<close>

definition parse_item ::
  "(string \<Rightarrow> error + int) \<Rightarrow> (string \<rightharpoonup> int) \<times> item list \<Rightarrow> string list
     \<Rightarrow> error + (string \<rightharpoonup> int) \<times> item list" where
  "parse_item py_eval st toks =
     (let context = fst st; program = snd st
      in if length toks = 1 \<and> endswith_colon (toks ! 0)
         then Inr (context, program @ [Label (rstrip_colon (toks ! 0))])
         else if length toks \<ge> 3 \<and> toks ! 1 = ''=''
         then and_then (py_eval (join_space (drop 2 toks))) (\<lambda>v.
                Inr (context(toks ! 0 \<mapsto> v), program))
         else if toks = [] then Inl IndexError
         else if lower (toks ! 0) = ''blob''
         then (if length toks < 2 then Inl IndexError
               else Inr (context, program @ [Blob (encode (toks ! 1))]))
         else if lower (toks ! 0) = ''pack''
         then (if length toks < 2 then Inl IndexError else Inl TypeError)
         else if lower (toks ! 0) \<in> set R_TYPE_INSTRUCTIONS
         then Inr (context, program)
         else Inl SystemExit)"

fun parse_loop ::
  "(string \<Rightarrow> error + int) \<Rightarrow> (string \<rightharpoonup> int) \<times> item list \<Rightarrow> string list list
     \<Rightarrow> error + item list" where
  "parse_loop py_eval st [] = Inr (snd st)"
| "parse_loop py_eval st (toks # items) =
     and_then (parse_item py_eval st toks) (\<lambda>st'. parse_loop py_eval st' items)"

definition parse_assembly :: "(string \<Rightarrow> error + int) \<Rightarrow> string list list \<Rightarrow> error + item list" where
  "parse_assembly py_eval items = parse_loop py_eval (Map.empty, []) items"

section \<open>The five passes in a row\<close>

text \<open>
  The module's entry point lexes and parses only. The passes are run here in the order
  of the source's comment: aligns, labels, immediates, relocations, assemble.
\<close>

definition run_passes :: "(string \<Rightarrow> error + int) \<Rightarrow> item list \<Rightarrow> error + byte list" where
  "run_passes calcsize program =
     and_then (resolve_aligns calcsize program) (\<lambda>p1.
       let r = resolve_labels p1 in
       and_then (resolve_immediates (fst r) (snd r)) (\<lambda>p3.
       and_then (resolve_relocations p3) (\<lambda>p4.
         assemble p4)))"

definition assemble_text ::
  "(string \<Rightarrow> error + int) \<Rightarrow> (string \<Rightarrow> error + int) \<Rightarrow> string \<Rightarrow> error + byte list" where
  "assemble_text calcsize py_eval assembly =
     and_then (parse_assembly py_eval (lex_assembly assembly)) (run_passes calcsize)"

section \<open>Relocation splitting\<close>

lemma and_pow_int: "(v::int) AND 2 ^ k = of_bool (bit v k) * 2 ^ k"
  by (rule bit_eqI) (auto simp add: bit_simps)

lemma sign_extend_signed_take_bit:
  "0 < bits \<Longrightarrow> sign_extend v bits = Inr (signed_take_bit (nat (bits - 1)) v)"
  apply (simp add: sign_extend_def Let_def push_bit_eq_mult)
  apply (simp add: signed_take_bit_eq_take_bit_minus take_bit_Suc_from_most and_pow_int
      flip: mask_eq_exp_minus_1 take_bit_eq_mask)
  done

lemma and_fff: "(v::int) AND 0xfff = take_bit 12 v"
  by (simp add: take_bit_eq_mask mask_eq_exp_minus_1)

lemma and_fffff: "(v::int) AND 0xfffff = take_bit 20 v"
  by (simp add: take_bit_eq_mask mask_eq_exp_minus_1)

lemma and_800: "(v::int) AND 0x800 \<noteq> 0 \<longleftrightarrow> bit v 11"
  using and_exp_eq_0_iff_not_bit [of v 11] by simp

lemma relocate_lo_eq: "relocate_lo v = Inr (signed_take_bit 11 v)"
  by (simp add: relocate_lo_def sign_extend_signed_take_bit and_fff signed_take_bit_take_bit)

lemma relocate_hi_eq:
  "relocate_hi v = Inr (signed_take_bit 19 (drop_bit 12 (if bit v 11 then v + 4096 else v)))"
  by (simp add: relocate_hi_def sign_extend_signed_take_bit and_fffff and_800
      signed_take_bit_take_bit Let_def)

text \<open>
  Without the reduction to 20 bits the two halves give back the value itself: the
  carry added to the upper half cancels the sign of the lower half.
\<close>

lemma split_exact:
  "push_bit 12 (drop_bit 12 (if bit v 11 then v + 4096 else v)) + signed_take_bit 11 v = (v::int)"
proof -
  have lo: "signed_take_bit 11 v = v mod 4096 - (if bit v 11 then 4096 else 0)"
    by (simp add: signed_take_bit_eq_take_bit_minus take_bit_Suc_from_most take_bit_eq_mod)
  have d: "(v + 4096) div 4096 = v div 4096 + 1"
    by simp
  have m: "v div 4096 * 4096 + v mod 4096 = v"
    by simp
  show ?thesis
    using m by (simp add: lo push_bit_eq_mult drop_bit_eq_div d algebra_simps)
qed

lemma roundtrip_mod:
  "(push_bit 12 (signed_take_bit 19 (drop_bit 12 (if bit v 11 then v + 4096 else v)))
      + signed_take_bit 11 v) mod 2 ^ 32 = (v::int) mod 2 ^ 32"
proof -
  let ?x = "drop_bit 12 (if bit v 11 then v + 4096 else v)"
  have "take_bit 32 (push_bit 12 (signed_take_bit 19 ?x)) = take_bit 32 (push_bit 12 ?x)"
    by (simp add: take_bit_push_bit take_bit_signed_take_bit)
  then have "push_bit 12 (signed_take_bit 19 ?x) mod 2 ^ 32 = push_bit 12 ?x mod 2 ^ 32"
    by (simp add: take_bit_eq_mod)
  then have "(push_bit 12 (signed_take_bit 19 ?x) + signed_take_bit 11 v) mod 2 ^ 32
      = (push_bit 12 ?x + signed_take_bit 11 v) mod 2 ^ 32"
    by (rule mod_add_cong) simp
  then show ?thesis by (simp only: split_exact)
qed

lemma signed_take_bit_range:
  "- (2 ^ n) \<le> signed_take_bit n (k::int) \<and> signed_take_bit n k < 2 ^ n"
  by (simp add: signed_take_bit_int_greater_eq_minus_exp signed_take_bit_int_less_exp)

text \<open>
  C2. For every value \<open>v\<close> (every integer, so every 32-bit one), \<^verbatim>\<open>relocate_hi\<close> and
  \<^verbatim>\<open>relocate_lo\<close> return: the upper half is bits 12 and up of \<open>v\<close>, after 4096 was added
  when bit 11 of \<open>v\<close> is set, sign-extended from 20 bits; the lower half is the low 12
  bits of \<open>v\<close> sign-extended; and \<open>(hi << 12) + lo\<close> is \<open>v\<close> modulo \<open>2^32\<close>.
\<close>

theorem relocation_roundtrip:
  "\<exists>hi lo. relocate_hi v = Inr hi \<and> relocate_lo v = Inr lo
      \<and> hi = signed_take_bit 19 (drop_bit 12 (if bit v 11 then v + 4096 else v))
      \<and> lo = signed_take_bit 11 v
      \<and> (push_bit 12 hi + lo) mod 2 ^ 32 = v mod 2 ^ 32"
  using relocate_hi_eq [of v] relocate_lo_eq [of v] roundtrip_mod [of v] by blast

theorem relocation_roundtrip_witness:
  "relocate_hi 0x12345678 = Inr 0x12345 \<and> relocate_lo 0x12345678 = Inr 0x678
    \<and> (push_bit 12 0x12345 + 0x678) mod 2 ^ 32 = (0x12345678 :: int)
    \<and> relocate_hi 0x12345878 = Inr 0x12346 \<and> relocate_lo 0x12345878 = Inr (- 1928)
    \<and> (push_bit 12 0x12346 + (- 1928)) mod 2 ^ 32 = (0x12345878 :: int)"
  using relocation_roundtrip [of "0x12345678"] relocation_roundtrip [of "0x12345878"]
  by (simp add: relocate_hi_def relocate_lo_def sign_extend_def)

lemma pack_I_not_range: "pack_I code \<noteq> Inl ImmediateRangeError"
  by (simp add: pack_I_def)

lemma and_then_not_range:
  "m \<noteq> Inl ImmediateRangeError \<Longrightarrow> (\<And>x. f x \<noteq> Inl ImmediateRangeError)
    \<Longrightarrow> and_then m f \<noteq> Inl ImmediateRangeError"
  by (cases m) auto

lemma resolve_register_not_range: "resolve_register r \<noteq> Inl ImmediateRangeError"
  by (auto simp: resolve_register_def Let_def split: reg.splits option.splits)

text \<open>
  C9. For every integer \<open>v\<close>, \<^verbatim>\<open>relocate_hi(v)\<close> lies in \<open>[-524288, 524287]\<close> and
  \<^verbatim>\<open>relocate_lo(v)\<close> in \<open>[-2048, 2047]\<close>, so that the U-type encoder on the upper half and
  the I-type and S-type encoders on the lower half never end in the range error,
  whatever their other operands are.
\<close>

theorem relocation_in_range:
  "\<exists>hi lo. relocate_hi v = Inr hi \<and> relocate_lo v = Inr lo
      \<and> - 524288 \<le> hi \<and> hi \<le> 524287 \<and> - 2048 \<le> lo \<and> lo \<le> 2047
      \<and> u_type rd hi opcode \<noteq> Inl ImmediateRangeError
      \<and> i_type rd rs1 lo opcode funct3 \<noteq> Inl ImmediateRangeError
      \<and> s_type rs1 rs2 lo opcode funct3 \<noteq> Inl ImmediateRangeError"
proof -
  define hi where "hi = signed_take_bit 19 (drop_bit 12 (if bit v 11 then v + 4096 else v))"
  define lo where "lo = signed_take_bit 11 v"
  have h: "- 524288 \<le> hi \<and> hi \<le> 524287"
    using signed_take_bit_range [of 19 "drop_bit 12 (if bit v 11 then v + 4096 else v)"]
    by (simp add: hi_def)
  have l: "- 2048 \<le> lo \<and> lo \<le> 2047"
    using signed_take_bit_range [of 11 v] by (simp add: lo_def)
  have u: "u_type rd hi opcode \<noteq> Inl ImmediateRangeError"
    unfolding u_type_def using h
    by (intro and_then_not_range resolve_register_not_range) (simp add: pack_I_not_range Let_def)
  have i: "i_type rd rs1 lo opcode funct3 \<noteq> Inl ImmediateRangeError"
    unfolding i_type_def using l
    by (intro and_then_not_range resolve_register_not_range) (simp add: pack_I_not_range Let_def)
  have s: "s_type rs1 rs2 lo opcode funct3 \<noteq> Inl ImmediateRangeError"
    unfolding s_type_def using l
    by (intro and_then_not_range resolve_register_not_range) (simp add: pack_I_not_range Let_def)
  show ?thesis
    using h l u i s relocate_hi_eq [of v] relocate_lo_eq [of v]
    unfolding hi_def lo_def by blast
qed

theorem relocation_in_range_witness:
  "relocate_hi (- 1) = Inr 0 \<and> relocate_lo (- 1) = Inr (- 1)
    \<and> relocate_hi 0x7ffff800 = Inr (- 524288) \<and> relocate_lo 0x7ffff800 = Inr (- 2048)
    \<and> LUI (RegName ''a0'') (- 524288) = Inr [0x37, 0x05, 0x00, 0x80]
    \<and> ADDI (RegName ''a0'') (RegName ''a0'') (- 2048) = Inr [0x13, 0x05, 0x05, 0x80]"
  using relocation_in_range [of "- 1"] relocation_in_range [of "0x7ffff800"]
  by (simp add: relocate_hi_def relocate_lo_def sign_extend_def LUI_def ADDI_def u_type_def
      i_type_def resolve_register_def REGISTERS_def pack_I_def c_uint32_def)

section \<open>The register resolver\<close>

lemma REGISTERS_range: "REGISTERS s = Some n \<Longrightarrow> 0 \<le> n \<and> n \<le> 31"
  unfolding REGISTERS_def
  by (drule map_of_SomeD) auto

lemma int_strip_keeps_head:
  "\<not> is_int_space c \<Longrightarrow> int_strip (c # cs) = c # rev (dropWhile is_int_space (rev cs))"
  by (simp add: int_strip_def dropWhile_append)

lemma py_int_letter:
  "\<not> is_int_space c \<Longrightarrow> \<not> is_digit c \<Longrightarrow> c \<noteq> CHR ''-'' \<Longrightarrow> c \<noteq> CHR ''+''
    \<Longrightarrow> py_int (c # cs) = None"
  by (simp add: py_int_def int_strip_keeps_head)

lemma REGISTERS_not_int: "REGISTERS s = Some n \<Longrightarrow> py_int s = None"
  unfolding REGISTERS_def
  by (drule map_of_SomeD) (auto simp: py_int_letter is_int_space_def is_digit_def)

lemma resolve_register_Inr_range:
  "resolve_register r = Inr n \<Longrightarrow> 0 \<le> n \<and> n \<le> 31"
  by (auto simp: resolve_register_def Let_def split: reg.splits option.splits if_splits)

lemma resolve_register_name:
  "REGISTERS s = Some n \<Longrightarrow> resolve_register (RegName s) = Inr n"
  using REGISTERS_range [of s n] by (auto simp: resolve_register_def)

lemma py_int_not_name: "py_int s = Some n \<Longrightarrow> REGISTERS s = None"
  by (cases "REGISTERS s") (auto dest: REGISTERS_not_int)

lemma char_code_eq: "of_char c = (of_char d :: nat) \<Longrightarrow> c = d"
  by simp

lemma is_int_space_code:
  "is_int_space c \<longleftrightarrow> of_char c \<in> {9, 10, 11, 12, 13, 32, 133, 160 :: nat}"
proof
  assume "is_int_space c"
  then show "of_char c \<in> {9, 10, 11, 12, 13, 32, 133, 160 :: nat}"
    by (auto simp: is_int_space_def)
next
  assume a: "of_char c \<in> {9, 10, 11, 12, 13, 32, 133, 160 :: nat}"
  have "c = CHR 0x09" if "of_char c = (9::nat)" by (rule char_code_eq) (simp add: that)
  moreover have "c = CHR 0x0A" if "of_char c = (10::nat)" by (rule char_code_eq) (simp add: that)
  moreover have "c = CHR 0x0B" if "of_char c = (11::nat)" by (rule char_code_eq) (simp add: that)
  moreover have "c = CHR 0x0C" if "of_char c = (12::nat)" by (rule char_code_eq) (simp add: that)
  moreover have "c = CHR 0x0D" if "of_char c = (13::nat)" by (rule char_code_eq) (simp add: that)
  moreover have "c = CHR 0x20" if "of_char c = (32::nat)" by (rule char_code_eq) (simp add: that)
  moreover have "c = CHR 0x85" if "of_char c = (133::nat)" by (rule char_code_eq) (simp add: that)
  moreover have "c = CHR 0xA0" if "of_char c = (160::nat)" by (rule char_code_eq) (simp add: that)
  ultimately show "is_int_space c"
    using a unfolding is_int_space_def by fastforce
qed

lemma no_dbl_Cons:
  "(\<exists>xs ys. c # cs = xs @ ''__'' @ ys)
    \<longleftrightarrow> (c = CHR ''_'' \<and> cs \<noteq> [] \<and> hd cs = CHR ''_'') \<or> (\<exists>xs ys. cs = xs @ ''__'' @ ys)"
proof
  assume "\<exists>xs ys. c # cs = xs @ ''__'' @ ys"
  then obtain xs ys where e: "c # cs = xs @ ''__'' @ ys" by blast
  show "(c = CHR ''_'' \<and> cs \<noteq> [] \<and> hd cs = CHR ''_'') \<or> (\<exists>xs ys. cs = xs @ ''__'' @ ys)"
  proof (cases xs)
    case Nil
    with e show ?thesis by simp
  next
    case (Cons x xs')
    with e have "cs = xs' @ ''__'' @ ys" by simp
    then show ?thesis by blast
  qed
next
  assume "(c = CHR ''_'' \<and> cs \<noteq> [] \<and> hd cs = CHR ''_'') \<or> (\<exists>xs ys. cs = xs @ ''__'' @ ys)"
  then show "\<exists>xs ys. c # cs = xs @ ''__'' @ ys"
  proof
    assume a: "c = CHR ''_'' \<and> cs \<noteq> [] \<and> hd cs = CHR ''_''"
    then have "c # cs = [] @ ''__'' @ tl cs" by (cases cs) simp_all
    then show ?thesis by blast
  next
    assume "\<exists>xs ys. cs = xs @ ''__'' @ ys"
    then obtain xs ys where "cs = xs @ ''__'' @ ys" by blast
    then have "c # cs = (c # xs) @ ''__'' @ ys" by simp
    then show ?thesis by blast
  qed
qed

lemma no_dbl_Nil: "\<not> (\<exists>xs ys. [] = xs @ ''__'' @ ys)"
  by simp

lemma underscore_not_digit: "\<not> is_digit (CHR ''_'')"
  by (simp add: is_digit_def)

lemma py_digits_iff:
  "py_digits acc prev b = Some n \<longleftrightarrow>
     (\<forall>c\<in>set b. is_digit c \<or> c = CHR ''_'')
     \<and> (b = [] \<longrightarrow> prev)
     \<and> (b \<noteq> [] \<longrightarrow> (prev \<or> is_digit (hd b)) \<and> is_digit (last b))
     \<and> \<not> (\<exists>xs ys. b = xs @ ''__'' @ ys)
     \<and> n = foldl (\<lambda>a c. a * 10 + digit_val c) acc (filter is_digit b)"
proof (induction b arbitrary: acc prev)
  case Nil
  show ?case by auto
next
  case (Cons c cs)
  show ?case
  proof (cases "is_digit c")
    case True
    then have nu: "c \<noteq> CHR ''_''" using underscore_not_digit by auto
    show ?thesis
      unfolding no_dbl_Cons
      using True nu by (simp add: Cons.IH [of "acc * 10 + digit_val c" True])
  next
    case False
    show ?thesis
    proof (cases "c = CHR ''_'' \<and> prev")
      case True
      show ?thesis
        unfolding no_dbl_Cons
        using True False
        by (simp add: Cons.IH [of acc False] underscore_not_digit)
           (cases cs; auto simp: underscore_not_digit)
    next
      case f2: False
      show ?thesis
        using False f2 by auto
    qed
  qed
qed

lemma digit_not_int_space: "is_digit c \<Longrightarrow> \<not> is_int_space c"
  by (auto simp: is_digit_def is_int_space_def)

lemma digit_not_sign: "is_digit c \<Longrightarrow> c \<noteq> CHR ''-'' \<and> c \<noteq> CHR ''+''"
  by (auto simp: is_digit_def)

lemma sign_not_int_space: "\<not> is_int_space (CHR ''-'')" "\<not> is_int_space (CHR ''+'')"
  by (simp_all add: is_int_space_def)

lemma int_strip_decomp:
  "s = takeWhile is_int_space s @ int_strip s
        @ rev (takeWhile is_int_space (rev (dropWhile is_int_space s)))"
proof -
  let ?t = "dropWhile is_int_space s"
  have "rev ?t = takeWhile is_int_space (rev ?t) @ dropWhile is_int_space (rev ?t)"
    by simp
  then have "rev (rev ?t)
      = rev (takeWhile is_int_space (rev ?t) @ dropWhile is_int_space (rev ?t))"
    by simp
  then have "?t = rev (dropWhile is_int_space (rev ?t)) @ rev (takeWhile is_int_space (rev ?t))"
    by (simp only: rev_rev_ident rev_append)
  then have "?t = int_strip s @ rev (takeWhile is_int_space (rev ?t))"
    by (simp only: int_strip_def)
  moreover have "s = takeWhile is_int_space s @ ?t" by simp
  ultimately show ?thesis by simp
qed

lemma int_strip_core:
  assumes "\<forall>c\<in>set ws1. is_int_space c" and "\<forall>c\<in>set ws2. is_int_space c"
    and "core \<noteq> []" and "\<not> is_int_space (hd core)" and "\<not> is_int_space (last core)"
  shows "int_strip (ws1 @ core @ ws2) = core"
proof -
  from assms(3) obtain c cs where c: "core = c # cs" by (cases core) auto
  have "\<And>x. x \<in> set ws1 \<Longrightarrow> is_int_space x"
    using assms(1) by simp
  then have "dropWhile is_int_space (ws1 @ core @ ws2) = dropWhile is_int_space (core @ ws2)"
    by (rule dropWhile_append2)
  also have "\<dots> = core @ ws2"
    using assms(4) c by simp
  finally have 1: "dropWhile is_int_space (ws1 @ core @ ws2) = core @ ws2" .
  from assms(3) obtain d ds where d: "rev core = d # ds" by (cases "rev core") auto
  have "d = last core" using d assms(3) by (metis hd_rev list.sel(1))
  then have nd: "\<not> is_int_space d" using assms(5) by simp
  have "\<And>x. x \<in> set (rev ws2) \<Longrightarrow> is_int_space x"
    using assms(2) by simp
  then have "dropWhile is_int_space (rev ws2 @ rev core) = dropWhile is_int_space (rev core)"
    by (rule dropWhile_append2)
  then have "dropWhile is_int_space (rev (core @ ws2)) = dropWhile is_int_space (rev core)"
    by simp
  also have "\<dots> = rev core" using d nd by simp
  finally have 2: "dropWhile is_int_space (rev (core @ ws2)) = rev core" .
  show ?thesis
    by (simp only: int_strip_def 1 2 rev_rev_ident)
qed

lemma py_digits_body:
  "py_digits 0 False b = Some n \<longleftrightarrow> numeral_body b \<and> n = decimal (filter is_digit b)"
  by (auto simp: py_digits_iff numeral_body_def decimal_def)

lemma py_int_literal: "py_int s = Some n \<Longrightarrow> int_literal s n"
proof -
  assume p: "py_int s = Some n"
  let ?ws1 = "takeWhile is_int_space s"
  let ?ws2 = "rev (takeWhile is_int_space (rev (dropWhile is_int_space s)))"
  have ws: "\<forall>c\<in>set (?ws1 @ ?ws2). of_char c \<in> {9, 10, 11, 12, 13, 32, 133, 160 :: nat}"
    unfolding is_int_space_code [symmetric]
    by (auto dest: set_takeWhileD)
  from p obtain c cs where t: "int_strip s = c # cs"
    by (cases "int_strip s") (auto simp: py_int_def)
  have dec: "s = ?ws1 @ (c # cs) @ ?ws2"
    using int_strip_decomp [of s] t by simp
  consider (minus) "c = CHR ''-''" | (plus) "c = CHR ''+''" | (none) "c \<noteq> CHR ''-''" "c \<noteq> CHR ''+''"
    by blast
  then show "int_literal s n"
  proof cases
    case minus
    with p t obtain m where m: "py_digits 0 False cs = Some m" "n = - m"
      by (auto simp: py_int_def)
    then have b: "numeral_body cs" "m = decimal (filter is_digit cs)"
      by (simp_all add: py_digits_body)
    have "s = ?ws1 @ ''-'' @ cs @ ?ws2" using dec minus by simp
    with ws b m show ?thesis
      unfolding int_literal_def by blast
  next
    case plus
    with p t have m: "py_digits 0 False cs = Some n"
      by (auto simp: py_int_def)
    then have b: "numeral_body cs" "n = decimal (filter is_digit cs)"
      by (simp_all add: py_digits_body)
    have "s = ?ws1 @ ''+'' @ cs @ ?ws2" using dec plus by simp
    with ws b show ?thesis
      unfolding int_literal_def by blast
  next
    case none
    with p t have m: "py_digits 0 False (c # cs) = Some n"
      by (auto simp: py_int_def)
    then have b: "numeral_body (c # cs)" "n = decimal (filter is_digit (c # cs))"
      by (simp_all only: py_digits_body)
    have "s = ?ws1 @ [] @ (c # cs) @ ?ws2" using dec by simp
    with ws b show ?thesis
      unfolding int_literal_def by blast
  qed
qed

lemma literal_py_int: "int_literal s n \<Longrightarrow> py_int s = Some n"
proof -
  assume "int_literal s n"
  then obtain ws1 sg b ws2 where
    s: "s = ws1 @ sg @ b @ ws2" and
    ws: "\<forall>c\<in>set (ws1 @ ws2). is_int_space c" and
    b: "numeral_body b" and
    sg: "sg = [] \<and> n = decimal (filter is_digit b)
         \<or> sg = ''+'' \<and> n = decimal (filter is_digit b)
         \<or> sg = ''-'' \<and> n = - decimal (filter is_digit b)"
    unfolding int_literal_def is_int_space_code [symmetric] by blast
  from b have bne: "b \<noteq> []" and hb: "is_digit (hd b)" and lb: "is_digit (last b)"
    by (simp_all add: numeral_body_def)
  from bne obtain c cs where c: "b = c # cs" by (cases b) auto
  have cd: "is_digit c" using hb c by simp
  have pd: "py_digits 0 False b = Some (decimal (filter is_digit b))"
    using b by (simp add: py_digits_body)
  have core: "sg @ b \<noteq> []" "\<not> is_int_space (hd (sg @ b))" "\<not> is_int_space (last (sg @ b))"
    using sg bne hb lb digit_not_int_space sign_not_int_space by auto
  have "int_strip (ws1 @ (sg @ b) @ ws2) = sg @ b"
    using ws core by (intro int_strip_core) auto
  then have st: "int_strip s = sg @ b" using s by simp
  from sg show "py_int s = Some n"
  proof (elim disjE conjE)
    assume "sg = []" "n = decimal (filter is_digit b)"
    then show ?thesis
      using st pd c digit_not_sign [OF cd] by (simp add: py_int_def)
  next
    assume "sg = ''+''" "n = decimal (filter is_digit b)"
    then show ?thesis
      using st pd by (simp add: py_int_def)
  next
    assume "sg = ''-''" "n = - decimal (filter is_digit b)"
    then show ?thesis
      using st pd by (simp add: py_int_def)
  qed
qed

lemma py_int_iff: "py_int s = Some n \<longleftrightarrow> int_literal s n"
  using py_int_literal literal_py_int by blast

lemma digits_numeral_body:
  "ds \<noteq> [] \<Longrightarrow> \<forall>c\<in>set ds. is_digit c \<Longrightarrow> numeral_body ds \<and> filter is_digit ds = ds"
proof -
  assume ne: "ds \<noteq> []" and d: "\<forall>c\<in>set ds. is_digit c"
  have "\<not> (\<exists>xs ys. ds = xs @ ''__'' @ ys)"
  proof
    assume "\<exists>xs ys. ds = xs @ ''__'' @ ys"
    then obtain xs ys where "ds = xs @ ''__'' @ ys" by blast
    then have "CHR ''_'' \<in> set ds" by simp
    with d show False using underscore_not_digit by blast
  qed
  moreover have "is_digit (hd ds)" "is_digit (last ds)" using ne d by simp_all
  moreover have "filter is_digit ds = ds" using d by simp
  ultimately show ?thesis using ne d by (simp add: numeral_body_def)
qed

lemma py_int_digits:
  "ds \<noteq> [] \<Longrightarrow> \<forall>c\<in>set ds. is_digit c \<Longrightarrow> py_int ds = Some (decimal ds)"
proof -
  assume a: "ds \<noteq> []" "\<forall>c\<in>set ds. is_digit c"
  from digits_numeral_body [OF a] have "int_literal ds (decimal ds)"
    unfolding int_literal_def
    by (intro exI [of _ "[]"] exI [of _ ds]) simp
  then show ?thesis by (rule literal_py_int)
qed

lemma digit_val_nonneg: "is_digit c \<Longrightarrow> 0 \<le> digit_val c"
  by (auto simp: is_digit_def digit_val_def)

lemma foldl_digits_nonneg:
  "\<forall>c\<in>set ds. is_digit c \<Longrightarrow> 0 \<le> acc
    \<Longrightarrow> 0 \<le> foldl (\<lambda>a c. a * 10 + digit_val c) acc ds"
proof (induction ds arbitrary: acc)
  case Nil
  then show ?case by simp
next
  case (Cons c cs)
  have "0 \<le> acc * 10 + digit_val c"
    using Cons.prems digit_val_nonneg [of c] by simp
  then show ?case using Cons by simp
qed

lemma decimal_nonneg: "\<forall>c\<in>set ds. is_digit c \<Longrightarrow> 0 \<le> decimal ds"
  by (simp add: decimal_def foldl_digits_nonneg)

lemma resolve_register_error: "resolve_register r = Inl e \<Longrightarrow> e = InvalidRegister"
  by (auto simp: resolve_register_def Let_def split: reg.splits option.splits if_splits)

lemma resolve_register_int:
  "REGISTERS s = None \<Longrightarrow>
    resolve_register (RegName s)
      = (case py_int s of None \<Rightarrow> Inl InvalidRegister
         | Some n \<Rightarrow> if n < 0 \<or> n > 31 then Inl InvalidRegister else Inr n)"
  by (simp add: resolve_register_def)

text \<open>
  C8, for tokens that are strings of code points below 256 or integers. The register
  resolver returns only numbers from 0 to 31 and raises only the register error. A
  token resolves to \<open>n\<close> exactly when it is a name of the table with
  the number \<open>n\<close>, or a decimal literal of the value \<open>n\<close> with \<open>n\<close> from 0 to 31; it
  raises the register error exactly when it is not in the table and is no decimal
  literal of a value from 0 to 31. In particular a plain numeral (a nonempty string of
  the digits 0 to 9) resolves to its decimal value when that is at most 31, and raises
  otherwise. An integer resolves to itself from 0 to 31, and raises otherwise.
\<close>

theorem resolve_register_spec:
  "(\<forall>n. resolve_register r = Inr n \<longrightarrow> 0 \<le> n \<and> n \<le> 31)
   \<and> (\<forall>e. resolve_register r = Inl e \<longrightarrow> e = InvalidRegister)
   \<and> (resolve_register (RegName s) = Inr n
        \<longleftrightarrow> REGISTERS s = Some n \<or> int_literal s n \<and> 0 \<le> n \<and> n \<le> 31)
   \<and> (resolve_register (RegName s) = Inl InvalidRegister
        \<longleftrightarrow> REGISTERS s = None \<and> (\<forall>m. int_literal s m \<longrightarrow> m < 0 \<or> 31 < m))
   \<and> (ds \<noteq> [] \<and> (\<forall>c\<in>set ds. is_digit c)
        \<longrightarrow> resolve_register (RegName ds)
            = (if decimal ds \<le> 31 then Inr (decimal ds) else Inl InvalidRegister))
   \<and> resolve_register (RegNum k)
        = (if 0 \<le> k \<and> k \<le> 31 then Inr k else Inl InvalidRegister)"
proof (intro conjI allI impI)
  fix n assume "resolve_register r = Inr n"
  then show "0 \<le> n" "n \<le> 31" using resolve_register_Inr_range by blast+
next
  fix e assume "resolve_register r = Inl e"
  then show "e = InvalidRegister" by (rule resolve_register_error)
next
  show "resolve_register (RegName s) = Inr n
        \<longleftrightarrow> REGISTERS s = Some n \<or> int_literal s n \<and> 0 \<le> n \<and> n \<le> 31"
  proof (cases "REGISTERS s")
    case None
    then show ?thesis
      by (auto simp: resolve_register_int py_int_iff [symmetric] split: option.splits)
  next
    case (Some m)
    then have "\<not> int_literal s n"
      using REGISTERS_not_int [of s m] by (simp add: py_int_iff [symmetric])
    then show ?thesis
      using Some resolve_register_name [of s m] by auto
  qed
next
  show "resolve_register (RegName s) = Inl InvalidRegister
        \<longleftrightarrow> REGISTERS s = None \<and> (\<forall>m. int_literal s m \<longrightarrow> m < 0 \<or> 31 < m)"
  proof (cases "REGISTERS s")
    case None
    then show ?thesis
      by (auto simp: resolve_register_int py_int_iff [symmetric] split: option.splits)
  next
    case (Some m)
    then show ?thesis
      using resolve_register_name [of s m] by simp
  qed
next
  assume a: "ds \<noteq> [] \<and> (\<forall>c\<in>set ds. is_digit c)"
  then have p: "py_int ds = Some (decimal ds)" by (simp add: py_int_digits)
  then have "REGISTERS ds = None" by (rule py_int_not_name)
  then show "resolve_register (RegName ds)
      = (if decimal ds \<le> 31 then Inr (decimal ds) else Inl InvalidRegister)"
    using p decimal_nonneg [of ds] a by (auto simp: resolve_register_int)
next
  show "resolve_register (RegNum k)
      = (if 0 \<le> k \<and> k \<le> 31 then Inr k else Inl InvalidRegister)"
    by (auto simp: resolve_register_def)
qed

theorem resolve_register_spec_witness:
  "resolve_register (RegName ''t6'') = Inr 31
   \<and> resolve_register (RegName ''17'') = Inr 17
   \<and> resolve_register (RegName ''32'') = Inl InvalidRegister
   \<and> int_literal [CHR 0x20, CHR ''+'', CHR ''1'', CHR ''_'', CHR ''7'', CHR 0x09] 17
   \<and> resolve_register (RegName [CHR 0x20, CHR ''+'', CHR ''1'', CHR ''_'', CHR ''7'', CHR 0x09])
       = Inr 17
   \<and> resolve_register (RegName ''-1'') = Inl InvalidRegister
   \<and> resolve_register (RegName ''x32'') = Inl InvalidRegister
   \<and> resolve_register (RegName [CHR 0x1C, CHR ''5'']) = Inl InvalidRegister
   \<and> resolve_register (RegName [CHR ''1'', CHR ''7'', CHR 0x1F]) = Inl InvalidRegister
   \<and> resolve_register (RegNum 5) = Inr 5
   \<and> resolve_register (RegNum 40) = Inl InvalidRegister
   \<and> resolve_register (RegNum (- 1)) = Inl InvalidRegister"
proof -
  let ?lit = "[CHR 0x20, CHR ''+'', CHR ''1'', CHR ''_'', CHR ''7'', CHR 0x09]"
  let ?fs = "[CHR 0x1C, CHR ''5'']"
  let ?us = "[CHR ''1'', CHR ''7'', CHR 0x1F]"
  note ev = py_int_def int_strip_def is_int_space_def is_digit_def digit_val_def
  have t6: "REGISTERS ''t6'' = Some 31" by (simp add: REGISTERS_def)
  have d17: "''17'' \<noteq> [] \<and> (\<forall>c\<in>set ''17''. is_digit c)" by (simp add: is_digit_def)
  have v17: "decimal ''17'' = 17" by (simp add: decimal_def digit_val_def)
  have d32: "''32'' \<noteq> [] \<and> (\<forall>c\<in>set ''32''. is_digit c)" by (simp add: is_digit_def)
  have v32: "decimal ''32'' = 32" by (simp add: decimal_def digit_val_def)
  have nd: "\<not> (\<exists>xs ys. ''1_7'' = xs @ ''__'' @ ys)"
    unfolding no_dbl_Cons by simp
  have body: "numeral_body ''1_7''"
    using nd by (simp add: numeral_body_def is_digit_def)
  have "?lit = [CHR 0x20] @ ''+'' @ ''1_7'' @ [CHR 0x09]
      \<and> (\<forall>c\<in>set ([CHR 0x20] @ [CHR 0x09]). of_char c \<in> {9, 10, 11, 12, 13, 32, 133, 160 :: nat})
      \<and> numeral_body ''1_7''
      \<and> 17 = decimal (filter is_digit ''1_7'')"
    using body by (simp add: is_digit_def decimal_def digit_val_def)
  then have lit: "int_literal ?lit 17"
    unfolding int_literal_def by blast
  have nx: "REGISTERS ''x32'' = None" "REGISTERS ''-1'' = None" "REGISTERS ?fs = None"
    "REGISTERS ?us = None"
    by (simp_all add: REGISTERS_def)
  have m1: "py_int ''-1'' = Some (- 1)" by (simp add: ev)
  have px: "py_int ''x32'' = None" by (simp add: ev)
  have pf: "py_int ?fs = None" by (simp add: ev)
  have pu: "py_int ?us = None" by (simp add: ev)
  have lm1: "\<forall>m. int_literal ''-1'' m \<longrightarrow> m < 0 \<or> 31 < m"
    using m1 by (simp add: py_int_iff [symmetric])
  have lx: "\<forall>m. int_literal ''x32'' m \<longrightarrow> m < 0 \<or> 31 < m"
    using px by (simp add: py_int_iff [symmetric])
  have lf: "\<forall>m. int_literal ?fs m \<longrightarrow> m < 0 \<or> 31 < m"
    using pf by (simp add: py_int_iff [symmetric])
  have lu: "\<forall>m. int_literal ?us m \<longrightarrow> m < 0 \<or> 31 < m"
    using pu by (simp add: py_int_iff [symmetric])
  have 1: "resolve_register (RegName ''t6'') = Inr 31"
    using resolve_register_spec [of "RegNum 5" "''t6''" 31 "''17''" 5] t6 by blast
  have 2: "resolve_register (RegName ''17'') = Inr 17"
    using resolve_register_spec [of "RegNum 5" "''t6''" 31 "''17''" 5] d17 v17 by simp
  have 3: "resolve_register (RegName ''32'') = Inl InvalidRegister"
    using resolve_register_spec [of "RegNum 5" "''t6''" 31 "''32''" 5] d32 v32 by simp
  have 4: "resolve_register (RegName ?lit) = Inr 17"
    using resolve_register_spec [of "RegNum 5" ?lit 17 "''17''" 5] lit by simp
  have 5: "resolve_register (RegName ''-1'') = Inl InvalidRegister"
    using resolve_register_spec [of "RegNum 5" "''-1''" 0 "''17''" 5] nx lm1 by blast
  have 6: "resolve_register (RegName ''x32'') = Inl InvalidRegister"
    using resolve_register_spec [of "RegNum 5" "''x32''" 0 "''17''" 5] nx lx by blast
  have 7: "resolve_register (RegName ?fs) = Inl InvalidRegister"
    using resolve_register_spec [of "RegNum 5" ?fs 0 "''17''" 5] nx lf by blast
  have 8: "resolve_register (RegName ?us) = Inl InvalidRegister"
    using resolve_register_spec [of "RegNum 5" ?us 0 "''17''" 5] nx lu by blast
  have 9: "resolve_register (RegNum 5) = Inr 5"
    using resolve_register_spec [of "RegNum 5" "''t6''" 31 "''17''" 5] by simp
  have 10: "resolve_register (RegNum 40) = Inl InvalidRegister"
    using resolve_register_spec [of "RegNum 5" "''t6''" 31 "''17''" 40] by simp
  have 11: "resolve_register (RegNum (- 1)) = Inl InvalidRegister"
    using resolve_register_spec [of "RegNum 5" "''t6''" 31 "''17''" "- 1"] by simp
  show ?thesis
    using lit 1 2 3 4 5 6 7 8 9 10 11 by blast
qed

section \<open>The encoders\<close>

lemma split_bytes:
  "(code::int) mod 256 + 256 * (code div 256 mod 256
      + 256 * (code div 65536 mod 256 + 256 * (code div 16777216))) = code"
proof -
  define c1 where "c1 = code div 256"
  define c2 where "c2 = c1 div 256"
  define c3 where "c3 = c2 div 256"
  have 1: "code mod 256 + 256 * c1 = code" by (simp add: c1_def)
  have 2: "c1 mod 256 + 256 * c2 = c1" by (simp add: c2_def)
  have 3: "c2 mod 256 + 256 * c3 = c2" by (simp add: c3_def)
  have 4: "code mod 256 + 256 * (c1 mod 256 + 256 * (c2 mod 256 + 256 * c3)) = code"
    by (simp only: 3 2 1)
  have 5: "c2 = code div 65536" by (simp add: c2_def c1_def div_mult2_eq)
  have 6: "c3 = code div 16777216" by (simp add: c3_def c2_def c1_def div_mult2_eq)
  show ?thesis using 4 unfolding 5 6 c1_def .
qed

lemma uint_byte: "uint (word_of_int x :: byte) = x mod 256"
  by (simp add: uint_word_of_int_eq take_bit_eq_mod)

lemma from_bytes_little4:
  "from_bytes_little [b0, b1, b2, b3] = uint b0 + 256 * (uint b1 + 256 * (uint b2 + 256 * uint b3))"
  by (simp add: from_bytes_little_def)

text \<open>Packing an unsigned 32-bit value succeeds, and the four bytes read back as it.\<close>

lemma pack_I_ok:
  assumes "0 \<le> code" "code < 2 ^ 32"
  shows "\<exists>bs. pack_I code = Inr bs \<and> length bs = 4 \<and> from_bytes_little bs = code"
proof -
  let ?bs = "[word_of_int code, word_of_int (drop_bit 8 code),
              word_of_int (drop_bit 16 code), word_of_int (drop_bit 24 code)] :: byte list"
  have p: "pack_I code = Inr ?bs"
    using assms by (simp add: pack_I_def)
  have "code div 16777216 < 256"
    using assms by simp
  moreover have "0 \<le> code div 16777216"
    using assms by simp
  ultimately have top: "code div 16777216 mod 256 = code div 16777216"
    by simp
  have "from_bytes_little ?bs = code mod 256 + 256 * (code div 256 mod 256
      + 256 * (code div 65536 mod 256 + 256 * (code div 16777216 mod 256)))"
    unfolding from_bytes_little4 uint_byte by (simp add: drop_bit_eq_div)
  also have "\<dots> = code"
    unfolding top by (rule split_bytes)
  finally show ?thesis
    using p by simp
qed

lemma fits_pack:
  assumes "take_bit 32 code = code"
  shows "\<exists>bs. pack_I code = Inr bs \<and> length bs = 4 \<and> from_bytes_little bs = code"
proof -
  have "0 \<le> code" "code < 2 ^ 32"
    using assms by (simp_all add: take_bit_int_eq_self_iff)
  then show ?thesis by (rule pack_I_ok)
qed

text \<open>A value that fits into \<open>m\<close> bits has no bit at position \<open>m\<close> or above.\<close>

lemma bit_fits_False: "take_bit m x = x \<Longrightarrow> m \<le> n \<Longrightarrow> \<not> bit (x::int) n"
  by (metis bit_take_bit_iff not_le)

lemma fits_mono: "take_bit m (x::int) = x \<Longrightarrow> m \<le> n \<Longrightarrow> take_bit n x = x"
  by (metis min.absorb_iff1 take_bit_take_bit min.commute)

lemma fits_or: "take_bit n (x::int) = x \<Longrightarrow> take_bit n y = y \<Longrightarrow> take_bit n (x OR y) = x OR y"
  by (simp add: take_bit_or)

lemma fits_push:
  "take_bit m (x::int) = x \<Longrightarrow> k + m \<le> n \<Longrightarrow> take_bit n (push_bit k x) = push_bit k x"
  using fits_mono [of m x "n - k"] by (simp add: take_bit_push_bit)

lemma fits_take: "take_bit m (take_bit m (x::int)) = take_bit m x"
  by simp

lemma fits_of_bool: "take_bit 1 (of_bool P :: int) = of_bool P"
  by simp

lemma fits_0: "take_bit n (0::int) = 0"
  by simp

lemma bit1_of: "take_bit 1 (drop_bit k (take_bit 12 (h::int))) = of_bool (k < 12 \<and> bit h k)"
  by (rule bit_eqI) (auto simp: bit_simps simp flip: bit_0)

lemma c_uint32_take_bit: "c_uint32 v = take_bit 32 v"
  by (simp add: c_uint32_def take_bit_eq_mod)

lemma c_uint32_and_fff: "c_uint32 v AND 0xfff = take_bit 12 v"
  by (simp add: c_uint32_take_bit and_fff)

lemma and_1: "(v::int) AND 1 = take_bit 1 v"
  by (simp add: take_bit_eq_mask mask_eq_exp_minus_1)

lemma and_f: "(v::int) AND 0xf = take_bit 4 v"
  by (simp add: take_bit_eq_mask mask_eq_exp_minus_1)

lemma and_3f: "(v::int) AND 0x3f = take_bit 6 v"
  by (simp add: take_bit_eq_mask mask_eq_exp_minus_1)

lemma reg_fits: "resolve_register r = Inr a \<Longrightarrow> take_bit 5 a = a"
  using resolve_register_Inr_range [of r a] by (simp add: take_bit_int_eq_self)

subsection \<open>The B-type word\<close>

lemma b_type_word_fits:
  assumes "take_bit 7 opcode = opcode" "take_bit 5 a = a" "take_bit 3 f = f" "take_bit 5 b = b"
  shows "take_bit 32 (b_type_word opcode f a b h) = b_type_word opcode f a b h"
  unfolding b_type_word_def bit1_of
  by (intro fits_or fits_0 fits_mono [OF assms(1)] fits_push [OF assms(2)]
      fits_push [OF assms(3)] fits_push [OF assms(4)] fits_push [OF fits_take]
      fits_push [OF fits_of_bool]) simp_all

lemma b_type_word_bit31:
  assumes "take_bit 7 opcode = opcode" "take_bit 5 a = a" "take_bit 3 f = f" "take_bit 5 b = b"
  shows "bit (b_type_word opcode f a b h) 31 = bit h 11"
  unfolding b_type_word_def bit1_of
  by (simp add: bit_simps bit_fits_False [OF assms(1)] bit_fits_False [OF assms(2)]
      bit_fits_False [OF assms(3)] bit_fits_False [OF assms(4)])

lemma b_type_word_bit7:
  assumes "take_bit 7 opcode = opcode" "take_bit 5 a = a" "take_bit 3 f = f" "take_bit 5 b = b"
  shows "bit (b_type_word opcode f a b h) 7 = bit h 10"
  unfolding b_type_word_def bit1_of
  by (simp add: bit_simps bit_fits_False [OF assms(1)] bit_fits_False [OF assms(2)]
      bit_fits_False [OF assms(3)] bit_fits_False [OF assms(4)])

lemma b_type_word_hi:
  assumes "take_bit 7 opcode = opcode" "take_bit 5 a = a" "take_bit 3 f = f" "take_bit 5 b = b"
  shows "take_bit 6 (drop_bit 25 (b_type_word opcode f a b h)) = take_bit 6 (drop_bit 4 h)"
  unfolding b_type_word_def bit1_of
  by (rule bit_eqI)
     (auto simp add: bit_simps bit_fits_False [OF assms(1)] bit_fits_False [OF assms(2)]
      bit_fits_False [OF assms(3)] bit_fits_False [OF assms(4)])

lemma b_type_word_lo:
  assumes "take_bit 7 opcode = opcode" "take_bit 5 a = a" "take_bit 3 f = f" "take_bit 5 b = b"
  shows "take_bit 4 (drop_bit 8 (b_type_word opcode f a b h)) = take_bit 4 h"
  unfolding b_type_word_def bit1_of
  by (rule bit_eqI)
     (auto simp add: bit_simps bit_fits_False [OF assms(1)] bit_fits_False [OF assms(2)]
      bit_fits_False [OF assms(3)] bit_fits_False [OF assms(4)])

text \<open>With resolved registers the encoder is its two checks followed by the packing.\<close>

lemma b_type_eq:
  assumes "resolve_register rs1 = Inr a" "resolve_register rs2 = Inr b"
  shows "b_type rs1 rs2 imm opcode funct3 =
    (if imm < - 4096 \<or> 4095 < imm then Inl ImmediateRangeError
     else if odd imm then Inl ImmediateParityError
     else pack_I (b_type_word opcode funct3 a b (imm div 2)))"
proof -
  have "b_type rs1 rs2 imm opcode funct3 =
    (if imm < - 4096 \<or> 4095 < imm then Inl ImmediateRangeError
     else if imm mod 2 = 1 then Inl ImmediateParityError
     else pack_I (b_type_word opcode funct3 a b (imm div 2)))"
    unfolding b_type_def b_type_word_def Let_def c_uint32_and_fff and_1 and_f and_3f
    by (simp only: assms and_then.simps)
  then show ?thesis
    by (simp add: odd_iff_mod_2_eq_one)
qed

lemma b_type_accept:
  assumes "resolve_register rs1 = Inr a" "resolve_register rs2 = Inr b"
    and "0 \<le> opcode" "opcode < 128" "0 \<le> funct3" "funct3 < 8"
    and "- 4096 \<le> imm" "imm \<le> 4095" "even imm"
  shows "\<exists>bs. b_type rs1 rs2 imm opcode funct3 = Inr bs \<and> length bs = 4
      \<and> bit (from_bytes_little bs) 31 = bit (imm div 2) 11
      \<and> bit (from_bytes_little bs) 7 = bit (imm div 2) 10
      \<and> take_bit 6 (drop_bit 25 (from_bytes_little bs)) = take_bit 6 (drop_bit 4 (imm div 2))
      \<and> take_bit 4 (drop_bit 8 (from_bytes_little bs)) = take_bit 4 (imm div 2)"
proof -
  let ?w = "b_type_word opcode funct3 a b (imm div 2)"
  have o: "take_bit 7 opcode = opcode" and f: "take_bit 3 funct3 = funct3"
    using assms(3-6) by (simp_all add: take_bit_int_eq_self)
  note r = reg_fits [OF assms(1)] reg_fits [OF assms(2)]
  have "take_bit 32 ?w = ?w"
    using o r f by (intro b_type_word_fits)
  then obtain bs where bs: "pack_I ?w = Inr bs" "length bs = 4" "from_bytes_little bs = ?w"
    using fits_pack by blast
  have "b_type rs1 rs2 imm opcode funct3 = Inr bs"
    using assms(7-9) bs(1) by (simp add: b_type_eq [OF assms(1,2)])
  then show ?thesis
    using bs(2,3) b_type_word_bit31 [OF o r(1) f r(2)] b_type_word_bit7 [OF o r(1) f r(2)]
      b_type_word_hi [OF o r(1) f r(2)] b_type_word_lo [OF o r(1) f r(2)]
    by simp
qed

text \<open>
  C6. With registers that resolve and the opcode and funct3 of a mnemonic, the B-type
  encoder returns bytes exactly for the even immediates from -4096 to 4095; outside the
  range it raises the range error, inside the range on an odd immediate the parity
  error; and the fields of an accepted immediate are bits of \<^verbatim>\<open>imm // 2\<close>: bit 11 of it is
  bit 31 of the word, bit 10 is bit 7, bits 4 to 9 are bits 25 to 30 and bits 0 to 3 are
  bits 8 to 11.
\<close>

theorem b_type_spec:
  assumes "resolve_register rs1 = Inr a" "resolve_register rs2 = Inr b"
    and "0 \<le> opcode" "opcode < 128" "0 \<le> funct3" "funct3 < 8"
  shows "((\<exists>bs. b_type rs1 rs2 imm opcode funct3 = Inr bs)
            \<longleftrightarrow> - 4096 \<le> imm \<and> imm \<le> 4095 \<and> even imm)
    \<and> (imm < - 4096 \<or> 4095 < imm
          \<longrightarrow> b_type rs1 rs2 imm opcode funct3 = Inl ImmediateRangeError)
    \<and> (- 4096 \<le> imm \<and> imm \<le> 4095 \<and> odd imm
          \<longrightarrow> b_type rs1 rs2 imm opcode funct3 = Inl ImmediateParityError)
    \<and> (- 4096 \<le> imm \<and> imm \<le> 4095 \<and> even imm \<longrightarrow>
         (\<exists>bs. b_type rs1 rs2 imm opcode funct3 = Inr bs \<and> length bs = 4
            \<and> bit (from_bytes_little bs) 31 = bit (imm div 2) 11
            \<and> bit (from_bytes_little bs) 7 = bit (imm div 2) 10
            \<and> take_bit 6 (drop_bit 25 (from_bytes_little bs))
                = take_bit 6 (drop_bit 4 (imm div 2))
            \<and> take_bit 4 (drop_bit 8 (from_bytes_little bs)) = take_bit 4 (imm div 2)))"
proof (intro conjI impI)
  show "(\<exists>bs. b_type rs1 rs2 imm opcode funct3 = Inr bs)
      \<longleftrightarrow> - 4096 \<le> imm \<and> imm \<le> 4095 \<and> even imm"
  proof
    assume "\<exists>bs. b_type rs1 rs2 imm opcode funct3 = Inr bs"
    then show "- 4096 \<le> imm \<and> imm \<le> 4095 \<and> even imm"
      by (auto simp: b_type_eq [OF assms(1,2)] split: if_splits)
  next
    assume "- 4096 \<le> imm \<and> imm \<le> 4095 \<and> even imm"
    then show "\<exists>bs. b_type rs1 rs2 imm opcode funct3 = Inr bs"
      using b_type_accept [OF assms, of imm] by blast
  qed
next
  assume "imm < - 4096 \<or> 4095 < imm"
  then show "b_type rs1 rs2 imm opcode funct3 = Inl ImmediateRangeError"
    by (simp add: b_type_eq [OF assms(1,2)])
next
  assume "- 4096 \<le> imm \<and> imm \<le> 4095 \<and> odd imm"
  then show "b_type rs1 rs2 imm opcode funct3 = Inl ImmediateParityError"
    by (simp add: b_type_eq [OF assms(1,2)])
next
  assume "- 4096 \<le> imm \<and> imm \<le> 4095 \<and> even imm"
  then show "\<exists>bs. b_type rs1 rs2 imm opcode funct3 = Inr bs \<and> length bs = 4
      \<and> bit (from_bytes_little bs) 31 = bit (imm div 2) 11
      \<and> bit (from_bytes_little bs) 7 = bit (imm div 2) 10
      \<and> take_bit 6 (drop_bit 25 (from_bytes_little bs)) = take_bit 6 (drop_bit 4 (imm div 2))
      \<and> take_bit 4 (drop_bit 8 (from_bytes_little bs)) = take_bit 4 (imm div 2)"
    using b_type_accept [OF assms, of imm] by blast
qed


theorem b_type_spec_witness:
  "BEQ (RegNum 1) (RegNum 2) 4094 = Inr [0xE3, 0x8F, 0x20, 0x7E]
   \<and> BEQ (RegNum 1) (RegNum 2) 4096 = Inl ImmediateRangeError
   \<and> BEQ (RegNum 1) (RegNum 2) 3 = Inl ImmediateParityError
   \<and> (\<exists>bs. BEQ (RegNum 1) (RegNum 2) (- 4096) = Inr bs
         \<and> bit (from_bytes_little bs) 31 = bit (- 4096 div 2 :: int) 11)"
proof -
  have r1: "resolve_register (RegNum 1) = Inr 1" and r2: "resolve_register (RegNum 2) = Inr 2"
    by (simp_all add: resolve_register_def)
  note t = b_type_spec [OF r1 r2, of "0x63" 0, simplified]
  have a: "BEQ (RegNum 1) (RegNum 2) 4094 = Inr [0xE3, 0x8F, 0x20, 0x7E]"
    by (simp add: BEQ_def b_type_def r1 r2 pack_I_def c_uint32_def)
  have b: "BEQ (RegNum 1) (RegNum 2) 4096 = Inl ImmediateRangeError"
    using t [of 4096] by (simp add: BEQ_def)
  have c: "BEQ (RegNum 1) (RegNum 2) 3 = Inl ImmediateParityError"
    using t [of 3] by (simp add: BEQ_def)
  have d: "\<exists>bs. BEQ (RegNum 1) (RegNum 2) (- 4096) = Inr bs
         \<and> bit (from_bytes_little bs) 31 = bit (- 4096 div 2 :: int) 11"
    using t [of "- 4096"] unfolding BEQ_def by auto
  show ?thesis
    using a b c d by blast
qed

subsection \<open>The I-type word\<close>

lemma i_type_word_fits:
  assumes "take_bit 7 opcode = opcode" "take_bit 5 a = a" "take_bit 3 f = f" "take_bit 5 b = b"
  shows "take_bit 32 (i_type_word opcode f a b imm) = i_type_word opcode f a b imm"
  unfolding i_type_word_def
  by (intro fits_or fits_0 fits_mono [OF assms(1)] fits_push [OF assms(2)]
      fits_push [OF assms(3)] fits_push [OF assms(4)] fits_push [OF fits_take]) simp_all

lemma i_type_word_imm:
  assumes "take_bit 7 opcode = opcode" "take_bit 5 a = a" "take_bit 3 f = f" "take_bit 5 b = b"
  shows "drop_bit 20 (i_type_word opcode f a b imm) = take_bit 12 imm"
  unfolding i_type_word_def
  by (rule bit_eqI)
     (auto simp add: bit_simps bit_fits_False [OF assms(1)] bit_fits_False [OF assms(2)]
      bit_fits_False [OF assms(3)] bit_fits_False [OF assms(4)])

lemma i_type_word_low:
  assumes "take_bit 7 opcode = opcode" "take_bit 5 a = a" "take_bit 3 f = f" "take_bit 5 b = b"
  shows "take_bit 20 (i_type_word opcode f a b imm)
    = opcode OR push_bit 7 a OR push_bit 12 f OR push_bit 15 b"
  unfolding i_type_word_def
  by (rule bit_eqI)
     (auto simp add: bit_simps bit_fits_False [OF assms(1)] bit_fits_False [OF assms(2)]
      bit_fits_False [OF assms(3)] bit_fits_False [OF assms(4)])

lemma i_type_eq:
  assumes "resolve_register rd = Inr a" "resolve_register rs1 = Inr b"
  shows "i_type rd rs1 imm opcode funct3 =
    (if imm < - 2048 \<or> 2047 < imm then Inl ImmediateRangeError
     else pack_I (i_type_word opcode funct3 a b imm))"
  unfolding i_type_def i_type_word_def Let_def c_uint32_and_fff
  by (simp only: assms and_then.simps)

lemma i_type_accept:
  assumes "resolve_register rd = Inr a" "resolve_register rs1 = Inr b"
    and "0 \<le> opcode" "opcode < 128" "0 \<le> funct3" "funct3 < 8"
    and "- 2048 \<le> imm" "imm \<le> 2047"
  shows "\<exists>bs. i_type rd rs1 imm opcode funct3 = Inr bs \<and> length bs = 4
      \<and> drop_bit 20 (from_bytes_little bs) = take_bit 12 imm
      \<and> take_bit 20 (from_bytes_little bs)
          = opcode OR push_bit 7 a OR push_bit 12 funct3 OR push_bit 15 b"
proof -
  let ?w = "i_type_word opcode funct3 a b imm"
  have o: "take_bit 7 opcode = opcode" and f: "take_bit 3 funct3 = funct3"
    using assms(3-6) by (simp_all add: take_bit_int_eq_self)
  note r = reg_fits [OF assms(1)] reg_fits [OF assms(2)]
  have "take_bit 32 ?w = ?w"
    using o r f by (intro i_type_word_fits)
  then obtain bs where bs: "pack_I ?w = Inr bs" "length bs = 4" "from_bytes_little bs = ?w"
    using fits_pack by blast
  have "i_type rd rs1 imm opcode funct3 = Inr bs"
    using assms(7,8) bs(1) by (simp add: i_type_eq [OF assms(1,2)])
  then show ?thesis
    using bs(2,3) i_type_word_imm [OF o r(1) f r(2)] i_type_word_low [OF o r(1) f r(2)]
    by simp
qed

text \<open>
  C7. With registers that resolve and the opcode and funct3 of a mnemonic, the I-type
  encoder returns bytes exactly when the immediate is from -2048 to 2047, and raises the
  range error otherwise; the four bytes, read as a little-endian word, carry the
  immediate modulo \<open>2^12\<close> (its 12-bit two's complement) in bits 20 to 31 and the
  opcode, rd, funct3 and rs1 below.
\<close>

theorem i_type_spec:
  assumes "resolve_register rd = Inr a" "resolve_register rs1 = Inr b"
    and "0 \<le> opcode" "opcode < 128" "0 \<le> funct3" "funct3 < 8"
  shows "((\<exists>bs. i_type rd rs1 imm opcode funct3 = Inr bs) \<longleftrightarrow> - 2048 \<le> imm \<and> imm \<le> 2047)
    \<and> (imm < - 2048 \<or> 2047 < imm
          \<longrightarrow> i_type rd rs1 imm opcode funct3 = Inl ImmediateRangeError)
    \<and> (- 2048 \<le> imm \<and> imm \<le> 2047 \<longrightarrow>
         (\<exists>bs. i_type rd rs1 imm opcode funct3 = Inr bs \<and> length bs = 4
            \<and> drop_bit 20 (from_bytes_little bs) = take_bit 12 imm
            \<and> take_bit 20 (from_bytes_little bs)
                = opcode OR push_bit 7 a OR push_bit 12 funct3 OR push_bit 15 b))"
proof (intro conjI impI)
  show "(\<exists>bs. i_type rd rs1 imm opcode funct3 = Inr bs) \<longleftrightarrow> - 2048 \<le> imm \<and> imm \<le> 2047"
  proof
    assume "\<exists>bs. i_type rd rs1 imm opcode funct3 = Inr bs"
    then show "- 2048 \<le> imm \<and> imm \<le> 2047"
      by (auto simp: i_type_eq [OF assms(1,2)] split: if_splits)
  next
    assume "- 2048 \<le> imm \<and> imm \<le> 2047"
    then show "\<exists>bs. i_type rd rs1 imm opcode funct3 = Inr bs"
      using i_type_accept [OF assms, of imm] by blast
  qed
next
  assume "imm < - 2048 \<or> 2047 < imm"
  then show "i_type rd rs1 imm opcode funct3 = Inl ImmediateRangeError"
    by (simp add: i_type_eq [OF assms(1,2)])
next
  assume "- 2048 \<le> imm \<and> imm \<le> 2047"
  then show "\<exists>bs. i_type rd rs1 imm opcode funct3 = Inr bs \<and> length bs = 4
      \<and> drop_bit 20 (from_bytes_little bs) = take_bit 12 imm
      \<and> take_bit 20 (from_bytes_little bs)
          = opcode OR push_bit 7 a OR push_bit 12 funct3 OR push_bit 15 b"
    using i_type_accept [OF assms, of imm] by blast
qed

theorem i_type_spec_witness:
  "ADDI (RegNum 1) (RegNum 2) (- 1) = Inr [0x93, 0x00, 0xF1, 0xFF]
   \<and> (\<exists>bs. ADDI (RegNum 1) (RegNum 2) (- 1) = Inr bs
         \<and> drop_bit 20 (from_bytes_little bs) = 0xFFF)
   \<and> (\<exists>bs. ADDI (RegNum 1) (RegNum 2) 0x7ff = Inr bs)
   \<and> ADDI (RegNum 1) (RegNum 2) 0x800 = Inl ImmediateRangeError"
proof -
  have r1: "resolve_register (RegNum 1) = Inr 1" and r2: "resolve_register (RegNum 2) = Inr 2"
    by (simp_all add: resolve_register_def)
  note t = i_type_spec [OF r1 r2, of "0x13" 0, simplified]
  have a: "ADDI (RegNum 1) (RegNum 2) (- 1) = Inr [0x93, 0x00, 0xF1, 0xFF]"
    by (simp add: ADDI_def i_type_def r1 r2 pack_I_def c_uint32_def)
  have m: "take_bit 12 (- 1 :: int) = 0xFFF"
    by (simp add: take_bit_eq_mod)
  have b: "\<exists>bs. ADDI (RegNum 1) (RegNum 2) (- 1) = Inr bs
         \<and> drop_bit 20 (from_bytes_little bs) = 0xFFF"
    using t [of "- 1"] unfolding ADDI_def m by auto
  have c: "\<exists>bs. ADDI (RegNum 1) (RegNum 2) 0x7ff = Inr bs"
    using t [of "0x7ff"] unfolding ADDI_def by auto
  have d: "ADDI (RegNum 1) (RegNum 2) 0x800 = Inl ImmediateRangeError"
    using t [of "0x800"] by (simp add: ADDI_def)
  show ?thesis
    using a b c d by blast
qed

subsection \<open>Parity\<close>

text \<open>
  C10. The parity check of the B-type and of the J-type encoder is \<open>imm mod 2 = 1\<close>,
  which holds for every odd integer, negative ones included: with registers that
  resolve, every odd immediate in range ends in the parity error.
\<close>

theorem parity_rejects_every_odd:
  assumes "resolve_register rs1 = Inr a" "resolve_register rs2 = Inr b"
    and "resolve_register rd = Inr d" and "odd imm"
  shows "(- 4096 \<le> imm \<and> imm \<le> 4095
            \<longrightarrow> b_type rs1 rs2 imm opcode funct3 = Inl ImmediateParityError)
    \<and> (- 1048576 \<le> imm \<and> imm \<le> 1048575
            \<longrightarrow> j_type rd imm opcode' = Inl ImmediateParityError)"
  using assms by (simp add: b_type_def j_type_def odd_iff_mod_2_eq_one)

theorem parity_rejects_every_odd_witness:
  "odd (- 3 :: int) \<and> (- 3 :: int) mod 2 = 1
   \<and> BEQ (RegName ''a0'') (RegName ''a1'') (- 3) = Inl ImmediateParityError
   \<and> JAL (RegName ''ra'') (- 3) = Inl ImmediateParityError"
proof -
  have r1: "resolve_register (RegName ''a0'') = Inr 10"
    and r2: "resolve_register (RegName ''a1'') = Inr 11"
    and r3: "resolve_register (RegName ''ra'') = Inr 1"
    by (simp_all add: resolve_register_def REGISTERS_def)
  have o: "odd (- 3 :: int)" by simp
  from parity_rejects_every_odd [OF r1 r2 r3 o, of "0x63" 0 "0x6f"]
  show ?thesis by (simp add: BEQ_def JAL_def)
qed

section \<open>The label pass\<close>

lemma resolve_labels_loop_fst:
  "fst (resolve_labels_loop p out l prog) = out @ filter (\<lambda>it. \<not> is_Label it) prog"
proof (induction prog arbitrary: p out l)
  case Nil
  show ?case by simp
next
  case (Cons it prog)
  show ?case by (cases it) (simp_all add: Cons.IH)
qed

lemma resolve_labels_loop_dom:
  "dom (snd (resolve_labels_loop p out l prog)) = dom l \<union> {name. Label name \<in> set prog}"
proof (induction prog arbitrary: p out l)
  case Nil
  show ?case by simp
next
  case (Cons it prog)
  show ?case by (cases it) (auto simp add: Cons.IH split: if_splits)
qed

lemma resolve_labels_loop_other:
  "Label name \<notin> set prog \<Longrightarrow> snd (resolve_labels_loop p out l prog) name = l name"
proof (induction prog arbitrary: p out l)
  case Nil
  show ?case by simp
next
  case (Cons it prog)
  then show ?case by (cases it) (auto simp add: Cons.IH)
qed

lemma resolve_labels_loop_risb:
  "Label name \<notin> set post \<Longrightarrow> \<forall>it\<in>set pre. is_Label it \<or> risb_instruction it \<Longrightarrow>
    snd (resolve_labels_loop p out l (pre @ Label name # post)) name
      = Some (p + 4 * int (length (filter risb_instruction pre)))"
proof (induction pre arbitrary: p out l)
  case Nil
  then show ?case by (simp add: resolve_labels_loop_other)
next
  case (Cons it pre)
  then show ?case by (cases it) (simp_all add: Cons.IH)
qed

text \<open>
  C4, without the error for a repeated name. The pass drops every \<^verbatim>\<open>Label\<close> and keeps
  the other items in order; the label table has exactly the declared names; a second
  declaration of a name raises nothing and replaces the first. Where only labels and
  instructions of the R-, I-, S- and B-type come before the last declaration of a name,
  the name is recorded at the current byte position: four bytes for each of these
  instructions, none for a label.
\<close>

theorem resolve_labels_spec:
  "fst (resolve_labels program) = filter (\<lambda>it. \<not> is_Label it) program
   \<and> (\<forall>name. Label name \<notin> set (fst (resolve_labels program)))
   \<and> dom (snd (resolve_labels program)) = {name. Label name \<in> set program}
   \<and> (\<forall>pre name post.
         program = pre @ Label name # post \<and> Label name \<notin> set post
         \<and> (\<forall>it\<in>set pre. is_Label it \<or> risb_instruction it)
         \<longrightarrow> snd (resolve_labels program) name
               = Some (4 * int (length (filter risb_instruction pre))))"
proof (intro conjI allI impI)
  show f: "fst (resolve_labels program) = filter (\<lambda>it. \<not> is_Label it) program"
    by (simp add: resolve_labels_def resolve_labels_loop_fst)
  show "Label name \<notin> set (fst (resolve_labels program))" for name
    by (simp add: f)
  show "dom (snd (resolve_labels program)) = {name. Label name \<in> set program}"
    by (simp add: resolve_labels_def resolve_labels_loop_dom)
  show "snd (resolve_labels program) name
      = Some (4 * int (length (filter risb_instruction pre)))"
    if "program = pre @ Label name # post \<and> Label name \<notin> set post
        \<and> (\<forall>it\<in>set pre. is_Label it \<or> risb_instruction it)" for pre name post
    using that resolve_labels_loop_risb [of name post pre 0 "[]" Map.empty]
    by (simp add: resolve_labels_def)
qed

theorem resolve_labels_spec_witness:
  "resolve_labels [Label ''a'', ITypeInstruction ''addi'' (RegNum 1) (RegNum 0) (Imm 5),
      Label ''a'', STypeInstruction ''sw'' (RegNum 2) (RegNum 1) (Imm 0), Label ''b'']
    = ([ITypeInstruction ''addi'' (RegNum 1) (RegNum 0) (Imm 5),
        STypeInstruction ''sw'' (RegNum 2) (RegNum 1) (Imm 0)],
       [''a'' \<mapsto> 4, ''b'' \<mapsto> 8])
   \<and> snd (resolve_labels [Label ''a'', ITypeInstruction ''addi'' (RegNum 1) (RegNum 0) (Imm 5),
        Label ''a'', STypeInstruction ''sw'' (RegNum 2) (RegNum 1) (Imm 0), Label ''b''])
        ''a'' = Some 4
   \<and> snd (resolve_labels [Label ''a'', ITypeInstruction ''addi'' (RegNum 1) (RegNum 0) (Imm 5),
        Label ''a'', STypeInstruction ''sw'' (RegNum 2) (RegNum 1) (Imm 0), Label ''b''])
        ''b'' = Some 8"
proof -
  let ?addi = "ITypeInstruction ''addi'' (RegNum 1) (RegNum 0) (Imm 5)"
  let ?sw = "STypeInstruction ''sw'' (RegNum 2) (RegNum 1) (Imm 0)"
  let ?prog = "[Label ''a'', ?addi, Label ''a'', ?sw, Label ''b'']"
  have sa: "?prog = [Label ''a'', ?addi] @ Label ''a'' # [?sw, Label ''b'']
      \<and> Label ''a'' \<notin> set [?sw, Label ''b'']
      \<and> (\<forall>it\<in>set [Label ''a'', ?addi]. is_Label it \<or> risb_instruction it)"
    by simp
  have sb: "?prog = [Label ''a'', ?addi, Label ''a'', ?sw] @ Label ''b'' # []
      \<and> Label ''b'' \<notin> set []
      \<and> (\<forall>it\<in>set [Label ''a'', ?addi, Label ''a'', ?sw]. is_Label it \<or> risb_instruction it)"
    by simp
  have "snd (resolve_labels ?prog) ''a''
      = Some (4 * int (length (filter risb_instruction [Label ''a'', ?addi])))"
    using resolve_labels_spec [of ?prog] sa by blast
  then have a: "snd (resolve_labels ?prog) ''a'' = Some 4"
    by simp
  have "snd (resolve_labels ?prog) ''b''
      = Some (4 * int (length (filter risb_instruction [Label ''a'', ?addi, Label ''a'', ?sw])))"
    using resolve_labels_spec [of ?prog] sb by blast
  then have b: "snd (resolve_labels ?prog) ''b'' = Some 8"
    by simp
  have c: "resolve_labels ?prog = ([?addi, ?sw], [''a'' \<mapsto> 4, ''b'' \<mapsto> 8])"
    by (simp add: resolve_labels_def)
  show ?thesis using a b c by simp
qed

text \<open>
  The claim's last part fails: a program that declares \<open>a\<close> twice goes through, and the
  table holds the position of the second declaration.
\<close>

theorem resolve_labels_duplicate_accepted:
  "resolve_labels [Label ''a'', RTypeInstruction ''add'' (RegNum 1) (RegNum 2) (RegNum 3),
      Label ''a'']
    = ([RTypeInstruction ''add'' (RegNum 1) (RegNum 2) (RegNum 3)], [''a'' \<mapsto> 4])"
  by (simp add: resolve_labels_def)

text \<open>
  After the other items the counter of the pass is not the byte position: the pass adds
  \<^verbatim>\<open>len(item)\<close>, the number of fields of the named tuple, so that a \<^verbatim>\<open>Blob\<close> of eight
  bytes counts 1 and a U-type instruction counts 3. \<^verbatim>\<open>resolve_aligns\<close> counts the
  bytes: 8 for the same \<^verbatim>\<open>Blob\<close>.
\<close>

lemma resolve_labels_counts_fields:
  "resolve_labels [Blob [1, 2, 3, 4, 5, 6, 7, 8], Label ''w'']
     = ([Blob [1, 2, 3, 4, 5, 6, 7, 8]], [''w'' \<mapsto> 1])"
  "resolve_labels [UTypeInstruction ''lui'' (RegNum 1) (Imm 0), Label ''w'']
     = ([UTypeInstruction ''lui'' (RegNum 1) (Imm 0)], [''w'' \<mapsto> 3])"
  by (simp_all add: resolve_labels_def)

lemma resolve_aligns_counts_bytes:
  "resolve_aligns calcsize [Blob [1, 2, 3, 4, 5, 6, 7, 8], Align 16]
     = Inr [Blob [1, 2, 3, 4, 5, 6, 7, 8], Blob (replicate 8 0)]"
  by (simp add: resolve_aligns_def)

section \<open>The align pass\<close>

text \<open>
  C5. A \<^verbatim>\<open>Label\<close> takes the last branch of \<^verbatim>\<open>resolve_aligns\<close> and advances the position
  by 4: after one label an \<^verbatim>\<open>Align(8)\<close> is padded with four zero bytes, where a label
  of no bytes would leave the position at 0 and the \<^verbatim>\<open>Align\<close> would be dropped.
\<close>

theorem resolve_aligns_label_counts_four:
  "resolve_aligns calcsize [Label ''a'', Align 8] = Inr [Label ''a'', Blob [0, 0, 0, 0]]"
  by (simp add: resolve_aligns_def eval_nat_numeral)

text \<open>The same pass on the \<^verbatim>\<open>Align\<close> alone, at position 0, drops it.\<close>

lemma resolve_aligns_aligned: "resolve_aligns calcsize [Align 8] = Inr []"
  by (simp add: resolve_aligns_def)

section \<open>The immediate pass\<close>

text \<open>
  C3. The pass raises on every symbolic immediate: \<^verbatim>\<open>Position('label', 4)\<close> with the label
  at 100 ends in the \<^verbatim>\<open>AttributeError\<close> of \<^verbatim>\<open>imm.base\<close> instead of the immediate 104, and
  the \<^verbatim>\<open>Offset\<close> of \<^verbatim>\<open>loop: jal loop\<close> in the \<^verbatim>\<open>AttributeError\<close> of the assignment to
  \<^verbatim>\<open>item.imm\<close> instead of the offset 0; a \<^verbatim>\<open>Hi\<close> wrapper ends in the one of
  \<^verbatim>\<open>item.imm.imm\<close>. Only the missing label is reported as the claim says.
\<close>

theorem resolve_immediates_raises:
  "resolve_immediates
      [ITypeInstruction ''addi'' (RegName ''x1'') (RegName ''x0'') (Position ''label'' 4)]
      [''label'' \<mapsto> 100] = Inl AttributeError
   \<and> resolve_immediates [JTypeInstruction ''jal'' (RegNum 0) (Offset ''loop'')]
        [''loop'' \<mapsto> 0] = Inl AttributeError
   \<and> resolve_immediates
        [UTypeInstruction ''lui'' (RegName ''a0'') (Hi (Position ''label'' 0))]
        [''label'' \<mapsto> 100] = Inl AttributeError
   \<and> resolve_immediates [JTypeInstruction ''jal'' (RegNum 0) (Offset ''loop'')] Map.empty
        = Inl (KeyError ''loop'')"
  by (simp add: resolve_immediates_def resolve_immediate_def get_label_def get_base_def
      set_imm_def get_imm_imm_def)

text \<open>No symbolic immediate is ever resolved, whatever the label table is.\<close>

lemma resolve_immediate_symbolic:
  assumes "imm_of it = Some i" "\<forall>n. i \<noteq> Imm n"
  shows "\<exists>e. resolve_immediate labels position it = Inl e"
  using assms
  by (cases i)
     (auto simp: resolve_immediate_def get_label_def get_base_def set_imm_def get_imm_imm_def
      split: option.splits)

section \<open>The whole assembler\<close>

lemma lex_add: "lex_assembly ''add x1, x2, x3'' = [[''add'', ''x1'', ''x2'', ''x3'']]"
  by (simp add: lex_assembly_def splitlines_def strip_def re_split_def is_space_def
      is_linebreak_def is_sep_def)

lemma parse_add:
  "parse_assembly py_eval [[''add'', ''x1'', ''x2'', ''x3'']] = Inr []"
  by (simp add: parse_assembly_def parse_item_def endswith_colon_def lower_def lower_char_def
      R_TYPE_INSTRUCTIONS_def)

lemma run_passes_empty: "run_passes calcsize [] = Inr []"
  by (simp add: run_passes_def resolve_aligns_def resolve_labels_def resolve_immediates_def
      resolve_relocations_def assemble_def)

text \<open>
  C1. The line \<^verbatim>\<open>add x1, x2, x3\<close> lexes to four tokens; the parser's branch for the
  R-type mnemonics is \<^verbatim>\<open>pass\<close>, so the program is empty and so is the output, while the
  encoder \<^verbatim>\<open>ADD\<close> on the same operands gives the four bytes of the claim.
\<close>

theorem assemble_text_add_is_empty:
  "lex_assembly ''add x1, x2, x3'' = [[''add'', ''x1'', ''x2'', ''x3'']]
   \<and> parse_assembly py_eval [[''add'', ''x1'', ''x2'', ''x3'']] = Inr []
   \<and> assemble_text calcsize py_eval ''add x1, x2, x3'' = Inr []
   \<and> ADD (RegName ''x1'') (RegName ''x2'') (RegName ''x3'') = Inr [0xB3, 0x00, 0x31, 0x00]"
proof -
  have "ADD (RegName ''x1'') (RegName ''x2'') (RegName ''x3'') = Inr [0xB3, 0x00, 0x31, 0x00]"
    by (simp add: ADD_def r_type_def resolve_register_def REGISTERS_def pack_I_def)
  then show ?thesis
    by (simp add: assemble_text_def lex_add parse_add run_passes_empty)
qed

end
